theory Spec2Isabelle
  imports Complex_Main
begin

section \<open>Python exceptions\<close>

text \<open>
  The exceptions the notebooks can meet. \<open>AmuseException\<close> stands for the framework's
  exception class and its subclasses (what a crashing solver raises); \<open>AmuseWarning\<close> is
  the framework's warning class, raised as an exception; \<open>NameError\<close> is what
  Python raises when a name is looked up that no import or assignment has bound;
  \<open>AttributeError\<close> is a read of an attribute that a particle does not carry;
  \<open>NotANumber\<close> marks an array operation whose result is not a finite number (numpy
  returns nan or inf there, with a warning).
\<close>

datatype exn =
    AmuseException
  | AmuseWarning
  | NameError string
  | AttributeError
  | TypeError
  | NotANumber
  | KeyboardInterrupt

section \<open>Calls into the framework, as events\<close>

text \<open>
  The notebooks are linear scripts of calls into the external framework. The solver
  instances are named as the notebooks name them: \<open>gravity\<close> (ph4), \<open>kstellar\<close> and
  \<open>sstellar\<close> (SeBa), \<open>stellar_evolution\<close> (MESA) and \<open>hydro_code\<close> (Fi). An event
  records one call: \<open>Construct s c\<close> is the constructor call for \<open>s\<close>, where \<open>c\<close> tells
  whether a unit converter is passed; \<open>Initial_conditions\<close> is a call of an
  initial-condition generator (\<open>new_king_model\<close>, \<open>Particles(...)\<close>,
  \<open>convert_stellar_model_to_SPH\<close>, a mass-distribution sampler); \<open>Diagnostic\<close> is a
  quantity computed from the in-memory collection (virial radius, Lagrangian radii, binary
  detection, mean mass); \<open>Plot\<close> is the plotting done by one statement or helper call.
\<close>

datatype solver = gravity | kstellar | sstellar | stellar_evolution | hydro_code

datatype event =
    Initial_conditions
  | Construct solver bool
  | Set_parameters solver
  | Add_particles solver
  | Commit_particles solver
  | New_channel solver
  | Evolve_model solver
  | Channel_copy solver
  | Diagnostic
  | Print
  | Plot
  | Pickle_stellar_model
  | Stop solver

section \<open>Solver state and units of time\<close>

text \<open>
  What the notebooks read of a running community code is its \<open>model_time\<close>; the rest of
  the solver's internal state is the extension of the record. Floating-point numbers are
  modelled as reals.
\<close>

record code_state =
  model_time :: real

text \<open>
  Modelled from the spec: the framework's units of time, which are not part of the source,
  as numbers of seconds; a model time is a number of seconds. The framework's year has
  365.242199 days, so a Myr is 365242199 days.
\<close>

definition units_s :: real where "units_s = 1"
definition units_minute :: real where "units_minute = 60"
definition units_hour :: real where "units_hour = 3600"
definition units_day :: real where "units_day = 86400"
definition units_Myr :: real where "units_Myr = 365242199 * 86400"

section \<open>The cumulative mass distribution of \<open>plot_cdf\<close>\<close>

text \<open>
  \<^verbatim>\<open>
  def plot_cdf(m, alpha_IMF=-2.35):
      m = sorted(m.value_in(units.MSun))
      fm = numpy.array([0])
      for mi in m:
          fm = numpy.append(fm, fm[-1] + mi)
      fm /= max(fm)
      ...
      pyplot.plot(m, fm[:len(m)], lw=4, ls="-")
  \<close>
  The masses come as an array of numbers in solar masses, of one numpy type: integers or
  floating-point numbers. Both are modelled as reals, with the type of the array beside
  them; a floating-point number is a real of absolute value at most \<open>float_max\<close>, and a
  sum beyond that is inf.
\<close>

datatype dtype = int64 | float64

definition float_max :: real where
  "float_max = (2 ^ 53 - 1) * 2 ^ 971"

text \<open>The loop appends to \<open>fm\<close> the last entry plus the next mass.\<close>

fun cumulate :: "real list \<Rightarrow> real list \<Rightarrow> real list" where
  "cumulate fm [] = fm"
| "cumulate fm (mi # m) = cumulate (fm @ [last fm + mi]) m"

text \<open>Python's \<open>max\<close> over a non-empty sequence: keep the first entry, replace it by each
  later entry that is greater.\<close>

definition max_list :: "real list \<Rightarrow> real" where
  "max_list xs = fold (\<lambda>x r. if r < x then x else r) (tl xs) (hd xs)"

text \<open>
  The array \<open>fm\<close> after \<open>fm /= max(fm)\<close>. The array starts as the integer array \<open>[0]\<close>;
  appending floating-point numbers makes it a floating-point array, appending integers
  leaves it an integer array. The in-place true division of an integer array is refused
  by numpy with a \<open>TypeError\<close>: that is the case of integer masses and of no mass at
  all. In a floating-point array, a maximum of zero or an entry that has overflowed to
  inf makes a quotient nan.
\<close>

definition plot_cdf_fm :: "dtype \<Rightarrow> real list \<Rightarrow> exn + real list" where
  "plot_cdf_fm dt m =
     (let ms = sort m;
          fm = cumulate [0] ms;
          mx = max_list fm
      in if ms = [] \<or> dt = int64 then Inl TypeError
         else if mx = 0 \<or> list_ex (\<lambda>v. float_max < \<bar>v\<bar>) fm then Inl NotANumber
         else Inr (map (\<lambda>v. v / mx) fm))"

text \<open>The ordinates handed to \<open>pyplot.plot\<close>: \<open>fm[:len(m)]\<close>.\<close>

definition plot_cdf_curve :: "dtype \<Rightarrow> real list \<Rightarrow> exn + real list" where
  "plot_cdf_curve dt m =
     (case plot_cdf_fm dt m of Inl e \<Rightarrow> Inl e | Inr fm \<Rightarrow> Inr (take (length m) fm))"

section \<open>Particle collections\<close>

text \<open>
  Modelled from the spec: the particle collection of the external framework, which is not
  part of the source. "A particle collection: an ordered set of point entities, each with
  mutable scalar/vector attributes (mass, position, velocity, radius, temperature,
  luminosity, internal energy, stellar type)." A particle is its identity \<open>key\<close> and its
  attributes by name; a collection is a list of particles.
\<close>

datatype attr_value = Scalar real | Vector real real real

record particle =
  key :: nat
  attrs :: "string \<rightharpoonup> attr_value"

text \<open>\<open>pos.length_squared()\<close> of a vector quantity.\<close>

fun length_squared :: "real \<times> real \<times> real \<Rightarrow> real" where
  "length_squared (x, y, z) = x * x + y * y + z * z"

text \<open>
  Modelled from the spec: \<open>particles.select(f, [a])\<close> of the framework, the sub-collection
  of the particles whose vector attribute \<open>a\<close> satisfies \<open>f\<close>. Reading an attribute that a
  particle lacks raises.
\<close>

fun select :: "(real \<times> real \<times> real \<Rightarrow> bool) \<Rightarrow> string \<Rightarrow> particle list \<Rightarrow> exn + particle list" where
  "select f a [] = Inr []"
| "select f a (p # ps) =
     (case attrs p a of
        Some (Vector x y z) \<Rightarrow>
          (case select f a ps of
             Inl e \<Rightarrow> Inl e
           | Inr inner \<Rightarrow> Inr (if f (x, y, z) then p # inner else inner))
      | _ \<Rightarrow> Inl AttributeError)"

text \<open>Modelled from the spec: \<open>particles.total_mass()\<close>, the sum of the \<open>mass\<close> attribute.\<close>

fun total_mass :: "particle list \<Rightarrow> exn + real" where
  "total_mass [] = Inr 0"
| "total_mass (p # ps) =
     (case attrs p ''mass'' of
        Some (Scalar m) \<Rightarrow>
          (case total_mass ps of Inl e \<Rightarrow> Inl e | Inr t \<Rightarrow> Inr (m + t))
      | _ \<Rightarrow> Inl AttributeError)"

text \<open>
  Modelled from the spec: \<open>inner.a += d\<close> on a sub-collection \<open>inner\<close> of a collection. A
  sub-collection is a view: it holds the identities of its particles, and the write lands
  in the collection it was selected from.
\<close>

fun subset_iadd :: "string \<Rightarrow> real \<Rightarrow> particle list \<Rightarrow> particle list \<Rightarrow> exn + particle list" where
  "subset_iadd a d inner [] = Inr []"
| "subset_iadd a d inner (p # ps) =
     (if key p \<in> key ` set inner then
        (case attrs p a of
           Some (Scalar v) \<Rightarrow>
             (case subset_iadd a d inner ps of
                Inl e \<Rightarrow> Inl e
              | Inr ps' \<Rightarrow> Inr (p\<lparr>attrs := (attrs p)(a \<mapsto> Scalar (v + d))\<rparr> # ps'))
         | _ \<Rightarrow> Inl AttributeError)
      else
        (case subset_iadd a d inner ps of Inl e \<Rightarrow> Inl e | Inr ps' \<Rightarrow> Inr (p # ps')))"

section \<open>\<open>inject_supernova_energy\<close>\<close>

text \<open>
  \<^verbatim>\<open>
  def inject_supernova_energy(gas_particles,
                              explosion_energy=1.0e+51|units.erg,
                              exploding_region=10|units.RSun):
      inner = gas_particles.select(
          lambda pos: pos.length_squared() < exploding_region**2,
          ["position"])
      print(len(inner), "innermost particles selected.")
      print("Adding", explosion_energy / inner.total_mass(), ...)
      inner.u += explosion_energy / inner.total_mass()
  \<close>
  The function returns nothing; its effect is the new content of \<open>gas_particles\<close>.
  Quantities are numbers in SI units. A total mass of zero makes the quotient inf or nan.
\<close>

definition inject_supernova_energy :: "particle list \<Rightarrow> real \<Rightarrow> real \<Rightarrow> exn + particle list" where
  "inject_supernova_energy gas_particles explosion_energy exploding_region =
     (case select (\<lambda>pos. length_squared pos < exploding_region ^ 2) ''position'' gas_particles of
        Inl e \<Rightarrow> Inl e
      | Inr inner \<Rightarrow>
          (case total_mass inner of
             Inl e \<Rightarrow> Inl e
           | Inr m \<Rightarrow>
               if m = 0 then Inl NotANumber
               else subset_iadd ''u'' (explosion_energy / m) inner gas_particles))"

text \<open>
  The words of the property: a particle lies inside the exploding region; the value of a
  scalar attribute; a particle of the SPH gas carries a position, a positive mass and a
  specific internal energy \<open>u\<close>.
\<close>

definition inside :: "real \<Rightarrow> particle \<Rightarrow> bool" where
  "inside r p = (case attrs p ''position'' of
                   Some (Vector x y z) \<Rightarrow> x * x + y * y + z * z < r * r | _ \<Rightarrow> False)"

definition scalar :: "string \<Rightarrow> particle \<Rightarrow> real" where
  "scalar a p = (case attrs p a of Some (Scalar v) \<Rightarrow> v | _ \<Rightarrow> 0)"

definition sph_particle :: "particle \<Rightarrow> bool" where
  "sph_particle p =
     ((case attrs p ''position'' of Some (Vector x y z) \<Rightarrow> True | _ \<Rightarrow> False)
      \<and> (case attrs p ''mass'' of Some (Scalar m) \<Rightarrow> 0 < m | _ \<Rightarrow> False)
      \<and> (case attrs p ''u'' of Some (Scalar u) \<Rightarrow> True | _ \<Rightarrow> False))"

section \<open>\<open>setup_stellar_evolution_model\<close>\<close>

text \<open>
  \<^verbatim>\<open>
  def setup_stellar_evolution_model():
      out_pickle_file = os.path.join(get_path_to_results(),
                                     "super_giant_stellar_structure.pkl")
      stellar_evolution = MESA(redirection="none")
      stars = Particles(1)
      stars.mass = 15.0 | units.MSun
      stellar_evolution.particles.add_particles(stars)
      stellar_evolution.commit_particles()
      print("Evolving a MESA star with mass:", stellar_evolution.particles[0].mass)
      try:
          while stellar_evolution.model_time<0.12|units.Myr:
              stellar_evolution.evolve_model()
              print("star:", stellar_evolution.particles[0].stellar_type, ...)
      except AmuseException as ex:
          print("Evolved star to", stellar_evolution.particles[0].age)
          print("Radius:", stellar_evolution.particles[0].radius)
      pickle_stellar_model(stellar_evolution.particles[0], out_pickle_file)
      stellar_evolution.stop()
      return out_pickle_file
  \<close>
  \<open>os.path.join\<close> of two components on a POSIX system:
\<close>

definition path_join :: "string \<Rightarrow> string \<Rightarrow> string" where
  "path_join a b =
     (if b \<noteq> [] \<and> hd b = CHR ''/'' then b
      else if a = [] \<or> last a = CHR ''/'' then a @ b
      else a @ ''/'' @ b)"

text \<open>
  The \<open>while\<close> loop. One call of the solver, \<open>evolve_model\<close>, is a parameter: it returns
  the exception it raises, if any, and the state the solver is left in. The loop stops at
  the first exception; whether it ends at all depends on the solver, so the result is an
  option. The trace collects the calls made.
\<close>

partial_function (option) mesa_loop ::
  "('a code_state_scheme \<Rightarrow> exn option \<times> 'a code_state_scheme) \<Rightarrow> 'a code_state_scheme
     \<Rightarrow> event list \<Rightarrow> (exn option \<times> 'a code_state_scheme \<times> event list) option"
where
  "mesa_loop evolve_model se tr =
     (if model_time se < 0.12 * units_Myr then
        (case evolve_model se of
           (Some e, se') \<Rightarrow> Some (Some e, se', tr @ [Evolve_model stellar_evolution])
         | (None, se') \<Rightarrow> mesa_loop evolve_model se' (tr @ [Evolve_model stellar_evolution, Print]))
      else Some (None, se, tr))"

text \<open>
  The names bound in the notebook when the function is called: those of its import
  statements (\<open>os\<close>, \<open>numpy\<close>, \<open>pyplot\<close>, \<open>units\<close>, \<open>pickle_stellar_model\<close>,
  \<open>convert_stellar_model_to_SPH\<close>, \<open>get_path_to_results\<close>, \<open>MESA\<close>, \<open>Particles\<close>) and the
  function itself. No cell imports \<open>AmuseException\<close>.
\<close>

definition notebook_globals :: "string list" where
  "notebook_globals =
     [''os'', ''numpy'', ''pyplot'', ''units'', ''pickle_stellar_model'',
      ''convert_stellar_model_to_SPH'', ''get_path_to_results'', ''MESA'', ''Particles'',
      ''setup_stellar_evolution_model'']"

text \<open>
  Modelled from the spec: \<open>pickle_stellar_model(particle, file)\<close> of the framework, which
  is not part of the source ("ad hoc serialized snapshots"). It stores the stellar model
  of the solver's star in a new file, and raises when the file exists already. The disk
  maps a path to the stellar model stored there.
\<close>

definition pickle_stellar_model ::
  "'a code_state_scheme \<Rightarrow> string \<Rightarrow> (string \<rightharpoonup> 'a code_state_scheme)
     \<Rightarrow> exn + (string \<rightharpoonup> 'a code_state_scheme)"
where
  "pickle_stellar_model particle pickle_file_name disk =
     (if pickle_file_name \<in> dom disk then Inl AmuseWarning
      else Inr (disk(pickle_file_name \<mapsto> particle)))"

text \<open>
  The last three statements: the solver's star as it stands is pickled, the solver is
  stopped and the path is returned. When the pickling raises, the function ends there.
\<close>

definition pickle_and_stop ::
  "string \<Rightarrow> 'a code_state_scheme \<Rightarrow> (string \<rightharpoonup> 'a code_state_scheme) \<Rightarrow> event list
     \<Rightarrow> (exn + string) \<times> (string \<rightharpoonup> 'a code_state_scheme) \<times> event list"
where
  "pickle_and_stop out_pickle_file se disk tr =
     (case pickle_stellar_model se out_pickle_file disk of
        Inl e \<Rightarrow> (Inl e, disk, tr @ [Pickle_stellar_model])
      | Inr disk' \<Rightarrow>
          (Inr out_pickle_file, disk', tr @ [Pickle_stellar_model, Stop stellar_evolution]))"

text \<open>The calls before the loop.\<close>

definition setup_prelude :: "event list" where
  "setup_prelude =
     [Construct stellar_evolution False, Initial_conditions, Add_particles stellar_evolution,
      Commit_particles stellar_evolution, Print]"

text \<open>
  The function, given the bound names \<open>globals\<close>, the directory that
  \<open>get_path_to_results()\<close> returns, the solver's \<open>evolve_model\<close>, the solver's state \<open>se0\<close>
  after \<open>commit_particles\<close> and the disk. When an exception reaches the \<open>except\<close> clause,
  Python first evaluates the class expression \<open>AmuseException\<close>: an unbound name raises
  \<open>NameError\<close> there; a bound one (taken to be the framework's class) is matched against
  the exception. An exception that leaves the function leaves the disk as it was.
\<close>

definition setup_stellar_evolution_model ::
  "string list \<Rightarrow> string \<Rightarrow> ('a code_state_scheme \<Rightarrow> exn option \<times> 'a code_state_scheme)
     \<Rightarrow> 'a code_state_scheme \<Rightarrow> (string \<rightharpoonup> 'a code_state_scheme)
     \<Rightarrow> ((exn + string) \<times> (string \<rightharpoonup> 'a code_state_scheme) \<times> event list) option"
where
  "setup_stellar_evolution_model globals get_path_to_results evolve_model se0 disk =
     (let out_pickle_file = path_join get_path_to_results ''super_giant_stellar_structure.pkl''
      in case mesa_loop evolve_model se0 setup_prelude of
           None \<Rightarrow> None
         | Some (None, se, tr) \<Rightarrow> Some (pickle_and_stop out_pickle_file se disk tr)
         | Some (Some e, se, tr) \<Rightarrow>
             if ''AmuseException'' \<notin> set globals
               then Some (Inl (NameError ''AmuseException''), disk, tr)
             else if e = AmuseException
               then Some (pickle_and_stop out_pickle_file se disk (tr @ [Print, Print]))
             else Some (Inl e, disk, tr))"

section \<open>The production run of the SPH notebook\<close>

text \<open>
  \<^verbatim>\<open>
  hydro_code.evolve_model(10.0|units.s)         # then print, hydro_plot, print
  hydro_code.evolve_model(1.0|units.minute)     # then print, hydro_plot; next cell: two prints
  hydro_code.evolve_model(1.0 | units.hour)     # then print, hydro_plot
  while hydro_code.model_time<0.3|units.day:
      hydro_code.evolve_model(hydro_code.model_time+(1|units.hour))
      print("Done running, until:", hydro_code.model_time.in_(units.hour))
      hydro_plot(hydro_code, view_size, npixels)
  # two prints
  hydro_code.stop()
  \<close>
  The solver's \<open>evolve_model(t)\<close> is a parameter; it returns the new state or raises. No
  statement here catches an exception: the first one ends the run.
\<close>

partial_function (option) sph_loop ::
  "('a code_state_scheme \<Rightarrow> real \<Rightarrow> exn + 'a code_state_scheme) \<Rightarrow> 'a code_state_scheme
     \<Rightarrow> event list \<Rightarrow> ((exn + 'a code_state_scheme) \<times> event list) option"
where
  "sph_loop evolve_model hc tr =
     (if model_time hc < 0.3 * units_day then
        (case evolve_model hc (model_time hc + 1 * units_hour) of
           Inl e \<Rightarrow> Some (Inl e, tr @ [Evolve_model hydro_code])
         | Inr hc' \<Rightarrow> sph_loop evolve_model hc' (tr @ [Evolve_model hydro_code, Print, Plot]))
      else Some (Inr hc, tr))"

text \<open>One cell of the form \<open>hydro_code.evolve_model(t)\<close> followed by prints and plots.\<close>

definition evolve_then ::
  "('a code_state_scheme \<Rightarrow> real \<Rightarrow> exn + 'a code_state_scheme) \<Rightarrow> real \<Rightarrow> event list
     \<Rightarrow> (exn + 'a code_state_scheme) \<times> event list \<Rightarrow> (exn + 'a code_state_scheme) \<times> event list"
where
  "evolve_then evolve_model t after r =
     (case r of
        (Inl e, tr) \<Rightarrow> (Inl e, tr)
      | (Inr hc, tr) \<Rightarrow>
          (case evolve_model hc t of
             Inl e \<Rightarrow> (Inl e, tr @ [Evolve_model hydro_code])
           | Inr hc' \<Rightarrow> (Inr hc', tr @ Evolve_model hydro_code # after)))"

definition sph_production ::
  "('a code_state_scheme \<Rightarrow> real \<Rightarrow> exn + 'a code_state_scheme) \<Rightarrow> 'a code_state_scheme
     \<Rightarrow> event list \<Rightarrow> ((exn + 'a code_state_scheme) \<times> event list) option"
where
  "sph_production evolve_model hc tr =
     (case evolve_then evolve_model (1.0 * units_hour) [Print, Plot]
             (evolve_then evolve_model (1.0 * units_minute) [Print, Plot, Print, Print]
               (evolve_then evolve_model (10.0 * units_s) [Print, Plot, Print] (Inr hc, tr))) of
        (Inl e, tr') \<Rightarrow> Some (Inl e, tr')
      | (Inr hc', tr') \<Rightarrow>
          (case sph_loop evolve_model hc' tr' of
             None \<Rightarrow> None
           | Some (Inl e, tr'') \<Rightarrow> Some (Inl e, tr'')
           | Some (Inr hc'', tr'') \<Rightarrow> Some (Inr hc'', tr'' @ [Print, Print, Stop hydro_code])))"

text \<open>The precondition of the termination property: \<open>evolve_model(t)\<close> returns and has set
  the model time to \<open>t\<close>.\<close>

definition sets_model_time ::
  "('a code_state_scheme \<Rightarrow> real \<Rightarrow> exn + 'a code_state_scheme) \<Rightarrow> bool" where
  "sets_model_time evolve_model =
     (\<forall>hc t. \<exists>hc'. evolve_model hc t = Inr hc' \<and> model_time hc' = t)"

section \<open>The notebooks as sequences of calls\<close>

text \<open>
  The N-body notebook. Its cells sample the masses, plot their distribution, build the
  King model, plot it, and then
  \<^verbatim>\<open>
  gravity = ph4(converter)
  gravity.particles.add_particles(bodies)
  channel = gravity.particles.new_channel_to(bodies)
  for time in times:
      gravity.evolve_model(time)
      channel.copy()
      Rvir.append(bodies.virial_radius())
      L = LagrangianRadii(bodies)
      RL25.append(LagrangianRadii(bodies)[5])
      if not time.value_in(units.Myr)%10.0:
          print(...)
      b = bodies.get_binaries()
      if(len(b)>0):
          print(...)
          print(...)
  pyplot.plot(...); pyplot.plot(...); pyplot.show()
  \<close>
  The two tests of an iteration depend on the data; their outcomes are the iteration's
  input, and a run is given by the list of outcomes of its iterations (1000 in the
  notebook). A run is one that no exception interrupts.
\<close>

definition nbody_iteration :: "bool \<times> bool \<Rightarrow> event list" where
  "nbody_iteration outcome =
     [Evolve_model gravity, Channel_copy gravity, Diagnostic, Diagnostic, Diagnostic]
     @ (if fst outcome then [Print] else [])
     @ [Diagnostic]
     @ (if snd outcome then [Print, Print] else [])"

definition nbody_setup :: "event list" where
  "nbody_setup =
     [Initial_conditions, Plot, Initial_conditions, Plot,
      Construct gravity True, Add_particles gravity, New_channel gravity]"

definition nbody_notebook :: "(bool \<times> bool) list \<Rightarrow> event list" where
  "nbody_notebook outcomes = nbody_setup @ concat (map nbody_iteration outcomes) @ [Plot]"

text \<open>
  The stellar-evolution notebook.
  \<^verbatim>\<open>
  def start_stellar_code(stars):
      stellar = SeBa()
      stellar.particles.add_particles(stars)
      channels = {"to_stars": stellar.particles.new_channel_to(stars),
                  "to_stellar": stars.new_channel_to(stellar.particles)}
      return stellar, channels
  kstellar, kchannels = start_stellar_code(k_stars)
  sstellar, schannels = start_stellar_code(s_stars)
  for time in times:
      kstellar.evolve_model(time)
      kchannels["to_stars"].copy()
      sstellar.evolve_model(time)
      schannels["to_stars"].copy()
      mmean.append(numpy.mean(k_stars.mass)/numpy.mean(s_stars.mass))
  kstellar.stop()
  sstellar.stop()
  \<close>
  followed by two prints and two plotting cells; \<open>n\<close> is the length of \<open>times\<close> (40 in
  the notebook).
\<close>

definition start_stellar_code :: "solver \<Rightarrow> event list" where
  "start_stellar_code stellar =
     [Construct stellar False, Add_particles stellar, New_channel stellar, New_channel stellar]"

definition stellar_iteration :: "event list" where
  "stellar_iteration =
     [Evolve_model kstellar, Channel_copy kstellar, Evolve_model sstellar, Channel_copy sstellar,
      Diagnostic]"

definition stellar_setup :: "event list" where
  "stellar_setup =
     [Initial_conditions, Initial_conditions, Print, Print, Plot]
     @ start_stellar_code kstellar @ start_stellar_code sstellar"

definition stellar_notebook :: "nat \<Rightarrow> event list" where
  "stellar_notebook n =
     stellar_setup @ concat (replicate n stellar_iteration)
     @ [Stop kstellar, Stop sstellar, Print, Print, Plot, Plot]"

text \<open>
  The SPH notebook: \<open>setup_stellar_evolution_model\<close>, then a print, the conversion of the
  pickled model to SPH particles with its prints, \<open>plot_star\<close>,
  \<open>inject_supernova_energy\<close> with its two prints, and
  \<^verbatim>\<open>
  hydro_code = Fi(converter)
  hydro_code.parameters.epsilon_squared = core_radius**2
  hydro_code.parameters.n_smooth_tol = 0.01
  hydro_code.gas_particles.add_particles(gas_without_core)
  hydro_code.dm_particles.add_particle(core)
  \<close>
  then the production run. An exception that leaves a cell ends the run.
\<close>

definition sph_setup :: "event list" where
  "sph_setup =
     [Print,
      Print, Print, Initial_conditions, Print, Print, Print,
      Plot,
      Print, Print,
      Construct hydro_code True, Set_parameters hydro_code, Set_parameters hydro_code,
      Add_particles hydro_code, Add_particles hydro_code]"

definition sph_notebook ::
  "string list \<Rightarrow> string \<Rightarrow> ('a code_state_scheme \<Rightarrow> exn option \<times> 'a code_state_scheme)
     \<Rightarrow> 'a code_state_scheme \<Rightarrow> ('b code_state_scheme \<Rightarrow> real \<Rightarrow> exn + 'b code_state_scheme)
     \<Rightarrow> 'b code_state_scheme \<Rightarrow> (string \<rightharpoonup> 'a code_state_scheme)
     \<Rightarrow> ((exn + 'b code_state_scheme) \<times> (string \<rightharpoonup> 'a code_state_scheme) \<times> event list) option"
where
  "sph_notebook globals get_path_to_results mesa_evolve_model se0 fi_evolve_model hc0 disk =
     (case setup_stellar_evolution_model globals get_path_to_results mesa_evolve_model se0 disk of
        None \<Rightarrow> None
      | Some (Inl e, disk', tr) \<Rightarrow> Some (Inl e, disk', tr)
      | Some (Inr pickle_file, disk', tr) \<Rightarrow>
          (case sph_production fi_evolve_model hc0 (tr @ sph_setup) of
             None \<Rightarrow> None
           | Some (r, tr') \<Rightarrow> Some (r, disk', tr')))"

section \<open>The lifecycle of a solver\<close>

text \<open>
  The lifecycle of one solver \<open>s\<close>, read off a sequence of calls: constructed, then
  particles added, then advanced, then stopped. \<open>converter\<close> says whether the construction
  passes a unit converter: a construction that passes one where none is expected, or none
  where one is expected, ends in \<open>Violated\<close>, and so does a call out of order. Calls that
  concern other solvers do not move the phase.
\<close>

datatype phase = Absent | Constructed | Loaded | Evolved | Stopped | Violated

definition lifecycle_step :: "bool \<Rightarrow> solver \<Rightarrow> event \<Rightarrow> phase \<Rightarrow> phase" where
  "lifecycle_step converter s ev ph =
     (if ev = Construct s converter then (if ph = Absent then Constructed else Violated)
      else if ev = Construct s (\<not> converter) then Violated
      else if ev = Set_parameters s then (if ph = Constructed then Constructed else Violated)
      else if ev = Add_particles s
        then (if ph = Constructed \<or> ph = Loaded then Loaded else Violated)
      else if ev = Commit_particles s \<or> ev = New_channel s
        then (if ph = Loaded then Loaded else Violated)
      else if ev = Evolve_model s then (if ph = Loaded \<or> ph = Evolved then Evolved else Violated)
      else if ev = Channel_copy s then (if ph = Evolved then Evolved else Violated)
      else if ev = Stop s then (if ph = Evolved then Stopped else Violated)
      else ph)"

definition lifecycle :: "bool \<Rightarrow> solver \<Rightarrow> event list \<Rightarrow> phase" where
  "lifecycle converter s tr = fold (lifecycle_step converter s) tr Absent"

section \<open>Units and quantities\<close>

text \<open>
  Modelled from the spec: the unit-and-quantity wrapper of the external framework, which is
  not part of the source. "Every numeric value is paired with a physical unit tag;
  arithmetic across incompatible units must fail." A unit tag is a factor to the SI unit
  and the exponents of metre, kilogram and second, which is how the units notebook prints
  the unit of the escape speed: \<open>53476144765.21653 * m * s**-1\<close>.
\<close>

record unit_tag =
  factor :: real
  m_exp :: rat
  kg_exp :: rat
  s_exp :: rat

record quantity =
  number :: real
  unit :: unit_tag

datatype unit_error = IncompatibleUnits

definition unit_m :: unit_tag where
  "unit_m = \<lparr>factor = 1, m_exp = 1, kg_exp = 0, s_exp = 0\<rparr>"

definition unit_kg :: unit_tag where
  "unit_kg = \<lparr>factor = 1, m_exp = 0, kg_exp = 1, s_exp = 0\<rparr>"

definition unit_s :: unit_tag where
  "unit_s = \<lparr>factor = 1, m_exp = 0, kg_exp = 0, s_exp = 1\<rparr>"

definition unit_MSun :: unit_tag where
  "unit_MSun = \<lparr>factor = 198892 * 10 ^ 25, m_exp = 0, kg_exp = 1, s_exp = 0\<rparr>"

definition unit_RSun :: unit_tag where
  "unit_RSun = \<lparr>factor = 6955 * 10 ^ 5, m_exp = 1, kg_exp = 0, s_exp = 0\<rparr>"

definition unit_kms :: unit_tag where
  "unit_kms = \<lparr>factor = 1000, m_exp = 1, kg_exp = 0, s_exp = -1\<rparr>"

text \<open>Modelled from the spec: two unit tags are compatible when they have the same
  dimension.\<close>

definition compatible :: "unit_tag \<Rightarrow> unit_tag \<Rightarrow> bool" where
  "compatible u v = (m_exp u = m_exp v \<and> kg_exp u = kg_exp v \<and> s_exp u = s_exp v)"

text \<open>Modelled from the spec: products, quotients and powers of units, \<open>u * v\<close>, \<open>u / v\<close>,
  \<open>u ** p\<close>.\<close>

definition unit_mul :: "unit_tag \<Rightarrow> unit_tag \<Rightarrow> unit_tag" where
  "unit_mul u v =
     \<lparr>factor = factor u * factor v, m_exp = m_exp u + m_exp v,
      kg_exp = kg_exp u + kg_exp v, s_exp = s_exp u + s_exp v\<rparr>"

definition unit_div :: "unit_tag \<Rightarrow> unit_tag \<Rightarrow> unit_tag" where
  "unit_div u v =
     \<lparr>factor = factor u / factor v, m_exp = m_exp u - m_exp v,
      kg_exp = kg_exp u - kg_exp v, s_exp = s_exp u - s_exp v\<rparr>"

definition unit_pow :: "unit_tag \<Rightarrow> rat \<Rightarrow> unit_tag" where
  "unit_pow u p =
     \<lparr>factor = factor u powr real_of_rat p, m_exp = m_exp u * p,
      kg_exp = kg_exp u * p, s_exp = s_exp u * p\<rparr>"

text \<open>Modelled from the spec: the arithmetic of quantities that the notebooks use:
  \<open>n | u\<close>, \<open>k * q\<close>, \<open>q * r\<close>, \<open>q / r\<close>, \<open>q.sqrt()\<close>, \<open>q + r\<close>, \<open>q.value_in(u)\<close>.\<close>

definition new_quantity :: "real \<Rightarrow> unit_tag \<Rightarrow> quantity" where
  "new_quantity n u = \<lparr>number = n, unit = u\<rparr>"

definition q_scale :: "real \<Rightarrow> quantity \<Rightarrow> quantity" where
  "q_scale k q = \<lparr>number = k * number q, unit = unit q\<rparr>"

definition q_mul :: "quantity \<Rightarrow> quantity \<Rightarrow> quantity" where
  "q_mul q r = \<lparr>number = number q * number r, unit = unit_mul (unit q) (unit r)\<rparr>"

definition q_div :: "quantity \<Rightarrow> quantity \<Rightarrow> quantity" where
  "q_div q r = \<lparr>number = number q / number r, unit = unit_div (unit q) (unit r)\<rparr>"

definition q_sqrt :: "quantity \<Rightarrow> quantity" where
  "q_sqrt q = \<lparr>number = sqrt (number q), unit = unit_pow (unit q) (1 / 2)\<rparr>"

definition q_add :: "quantity \<Rightarrow> quantity \<Rightarrow> unit_error + quantity" where
  "q_add q r =
     (if compatible (unit q) (unit r)
      then Inr \<lparr>number = number q + number r * factor (unit r) / factor (unit q), unit = unit q\<rparr>
      else Inl IncompatibleUnits)"

definition value_in :: "quantity \<Rightarrow> unit_tag \<Rightarrow> unit_error + real" where
  "value_in q u =
     (if compatible (unit q) u then Inr (number q * factor (unit q) / factor u)
      else Inl IncompatibleUnits)"

text \<open>
  The escape speed of the units notebook:
  \<^verbatim>\<open>
  mstar = 1 | units.MSun
  rstar = 1 | units.RSun
  G = 6.67e-11 | units.m**3 * units.kg**-1 * units.s**-2
  vesc = (2*G*mstar/rstar).sqrt()
  \<close>
\<close>

definition mstar :: quantity where
  "mstar = new_quantity 1 unit_MSun"

definition rstar :: quantity where
  "rstar = new_quantity 1 unit_RSun"

definition G :: quantity where
  "G = new_quantity (667 / 10 ^ 13)
         (unit_mul (unit_mul (unit_pow unit_m 3) (unit_pow unit_kg (-1))) (unit_pow unit_s (-2)))"

definition vesc :: quantity where
  "vesc = q_sqrt (q_div (q_mul (q_scale 2 G) mstar) rstar)"

section \<open>Channels\<close>

text \<open>
  Modelled from the spec: the channel of the external framework, which is not part of the
  source. "Channel: external framework's mechanism for copying attribute values from a
  solver's internal particle representation into an independent in-memory particle
  collection"; "attributes are overwritten wholesale when copied from a solver's internal
  state". \<open>channel_copy from_particles to_particles\<close> is the collection after
  \<open>channel.copy()\<close>: each particle of the collection takes, for every attribute that the
  solver holds for the particle of the same identity, the solver's value.
\<close>

definition channel_copy :: "particle list \<Rightarrow> particle list \<Rightarrow> particle list" where
  "channel_copy from_particles to_particles =
     map (\<lambda>q. case find (\<lambda>p. key p = key q) from_particles of
                 None \<Rightarrow> q
               | Some p \<Rightarrow> q\<lparr>attrs := attrs q ++ attrs p\<rparr>) to_particles"

text \<open>Modelled from the spec: \<open>solver.particles.add_particles(bodies)\<close> hands copies of the
  particles to the solver, which keeps them in the order given.\<close>

definition add_particles :: "particle list \<Rightarrow> particle list \<Rightarrow> particle list" where
  "add_particles solver_particles bodies = solver_particles @ bodies"

text \<open>
  The states that the notebooks' steps reach, as pairs of the solver's particles and the
  in-memory collection: the collection is handed to an empty solver; \<open>evolve_model\<close>
  changes attribute values inside the solver and keeps the identities; a channel copies
  back.
\<close>

inductive reachable :: "particle list \<times> particle list \<Rightarrow> bool" where
  handed: "distinct (map key bodies) \<Longrightarrow> reachable (add_particles [] bodies, bodies)"
| evolved: "reachable (sp, c) \<Longrightarrow> map key sp' = map key sp \<Longrightarrow> reachable (sp', c)"
| copied: "reachable (sp, c) \<Longrightarrow> reachable (sp, channel_copy sp c)"

section \<open>Concrete solvers and particles\<close>

text \<open>A hydrodynamics solver that sets the model time to the requested time.\<close>

definition evolve_to :: "'a code_state_scheme \<Rightarrow> real \<Rightarrow> exn + 'a code_state_scheme" where
  "evolve_to hc t = Inr (hc\<lparr>model_time := t\<rparr>)"

text \<open>Stellar-evolution solvers: one that a keyboard interrupt stops in its first call,
  one that advances by 0.04 Myr a call, and one that crashes once the star is 0.05 Myr
  old.\<close>

definition interrupted :: "code_state \<Rightarrow> exn option \<times> code_state" where
  "interrupted se = (Some KeyboardInterrupt, se)"

definition steady :: "code_state \<Rightarrow> exn option \<times> code_state" where
  "steady se = (None, se\<lparr>model_time := model_time se + units_Myr / 25\<rparr>)"

definition crashes :: "code_state \<Rightarrow> exn option \<times> code_state" where
  "crashes se =
     (if model_time se < units_Myr / 20 then steady se else (Some AmuseException, se))"

text \<open>Three gas particles: two within two length units of the centre, one outside.\<close>

definition gas3 :: "particle list" where
  "gas3 =
     [\<lparr>key = 1, attrs = [''position'' \<mapsto> Vector 0 0 0, ''mass'' \<mapsto> Scalar 2, ''u'' \<mapsto> Scalar 1]\<rparr>,
      \<lparr>key = 2, attrs = [''position'' \<mapsto> Vector 1 0 0, ''mass'' \<mapsto> Scalar 3, ''u'' \<mapsto> Scalar 0]\<rparr>,
      \<lparr>key = 3, attrs = [''position'' \<mapsto> Vector 5 5 5, ''mass'' \<mapsto> Scalar 1, ''u'' \<mapsto> Scalar 7]\<rparr>]"

text \<open>Two stars as the notebook creates them, with a mass only, and as the stellar
  evolution solver holds them after a step.\<close>

definition stars2 :: "particle list" where
  "stars2 =
     [\<lparr>key = 1, attrs = [''mass'' \<mapsto> Scalar 10]\<rparr>,
      \<lparr>key = 2, attrs = [''mass'' \<mapsto> Scalar 1]\<rparr>]"

definition evolved2 :: "particle list" where
  "evolved2 =
     [\<lparr>key = 1, attrs = [''mass'' \<mapsto> Scalar 9, ''radius'' \<mapsto> Scalar 4]\<rparr>,
      \<lparr>key = 2, attrs = [''mass'' \<mapsto> Scalar 1, ''radius'' \<mapsto> Scalar 1]\<rparr>]"

section \<open>Auxiliary functions of the proofs\<close>

text \<open>The running sums that the loop appends, starting from \<open>a\<close>.\<close>

fun psums :: "real \<Rightarrow> real list \<Rightarrow> real list" where
  "psums a [] = []"
| "psums a (x # xs) = (a + x) # psums (a + x) xs"

text \<open>The calls of the production run before its loop.\<close>

definition production_prelude :: "event list" where
  "production_prelude =
     [Evolve_model hydro_code, Print, Plot, Print,
      Evolve_model hydro_code, Print, Plot, Print, Print,
      Evolve_model hydro_code, Print, Plot]"

section \<open>Properties of \<open>plot_cdf\<close>\<close>

lemma cumulate_psums: "fm \<noteq> [] \<Longrightarrow> cumulate fm m = fm @ psums (last fm) m"
  by (induction m arbitrary: fm) simp_all

lemma psums_lower: "\<forall>x\<in>set m. 0 \<le> x \<Longrightarrow> v \<in> set (psums a m) \<Longrightarrow> a \<le> v"
proof (induction m arbitrary: a)
  case Nil
  then show ?case by simp
next
  case (Cons x m)
  from Cons.prems have x: "0 \<le> x" and rest: "\<forall>y\<in>set m. 0 \<le> y" by simp_all
  from Cons.prems(2) have "v = a + x \<or> v \<in> set (psums (a + x) m)" by simp
  then show ?case
  proof
    assume "v = a + x"
    with x show ?thesis by simp
  next
    assume "v \<in> set (psums (a + x) m)"
    from Cons.IH [OF rest this] x show ?thesis by simp
  qed
qed

lemma sorted_psums: "\<forall>x\<in>set m. 0 \<le> x \<Longrightarrow> sorted (a # psums a m)"
proof (induction m arbitrary: a)
  case Nil
  then show ?case by simp
next
  case (Cons x m)
  from Cons.prems have x: "0 \<le> x" and rest: "\<forall>y\<in>set m. 0 \<le> y" by simp_all
  have tl_sorted: "sorted ((a + x) # psums (a + x) m)" by (rule Cons.IH [OF rest])
  have "a \<le> v" if "v \<in> set ((a + x) # psums (a + x) m)" for v
  proof (cases "v = a + x")
    case True
    with x show ?thesis by simp
  next
    case False
    with that have "v \<in> set (psums (a + x) m)" by simp
    from psums_lower [OF rest this] x show ?thesis by simp
  qed
  with tl_sorted show ?case by simp
qed

lemma last_psums: "last (a # psums a m) = a + sum_list m"
  by (induction m arbitrary: a) (simp_all add: add.assoc)

lemma sum_list_insort: "sum_list (insort x xs) = x + sum_list (xs :: real list)"
  by (induction xs) simp_all

lemma sum_list_sort: "sum_list (sort xs) = sum_list (xs :: real list)"
  by (induction xs) (simp_all add: sum_list_insort)

lemma fold_max_sorted:
  "sorted (r # xs) \<Longrightarrow> fold (\<lambda>x r. if r < x then x else r) xs r = last (r # xs)"
proof (induction xs arbitrary: r)
  case Nil
  then show ?case by simp
next
  case (Cons x xs)
  from Cons.prems have rx: "r \<le> x" and sx: "sorted (x # xs)" by simp_all
  show ?case
  proof (cases "r < x")
    case True
    then show ?thesis using Cons.IH [OF sx] by simp
  next
    case False
    with rx have "r = x" by simp
    then show ?thesis using Cons.IH [OF sx] by simp
  qed
qed

lemma max_list_sorted: "xs \<noteq> [] \<Longrightarrow> sorted xs \<Longrightarrow> max_list xs = last xs"
  by (cases xs) (simp_all add: max_list_def fold_max_sorted del: sorted_wrt.simps)

lemma sorted_le_last: "sorted xs \<Longrightarrow> v \<in> set xs \<Longrightarrow> v \<le> last (xs :: real list)"
  by (induction xs) auto

lemma sorted_map_divide:
  fixes c :: real
  shows "0 < c \<Longrightarrow> sorted xs \<Longrightarrow> sorted (map (\<lambda>v. v / c) xs)"
  by (induction xs) (auto simp: divide_right_mono)

lemma length_psums: "length (psums a m) = length m"
  by (induction m arbitrary: a) simp_all

lemma nth_psums: "k \<le> length m \<Longrightarrow> (a # psums a m) ! k = a + sum_list (take k m)"
proof (induction m arbitrary: a k)
  case Nil
  then show ?case by simp
next
  case (Cons x m)
  show ?case
  proof (cases k)
    case 0
    then show ?thesis by simp
  next
    case (Suc j)
    with Cons.prems have "j \<le> length m" by simp
    from Cons.IH [OF this, of "a + x"] Suc show ?thesis by (simp add: add.assoc)
  qed
qed

text \<open>
  C9 (as amended). For every non-empty list of strictly positive floating-point masses
  whose sum is a floating-point number, \<open>plot_cdf\<close> computes the array \<open>fm\<close> of the
  running sums of the sorted masses, from 0 up to the sum of all masses, each divided by
  the maximum of these sums; this maximum is the sum of all masses; \<open>fm\<close> has one entry
  more than there are masses, is nondecreasing, all its entries lie between 0 and 1, and
  its last entry is 1.
\<close>

theorem plot_cdf_normalised:
  assumes nonempty: "m \<noteq> []" and positive: "\<forall>x\<in>set m. 0 < x"
    and finite: "sum_list m \<le> float_max"
  shows "\<exists>fm. plot_cdf_fm float64 m = Inr fm
           \<and> fm = map (\<lambda>v. v / max_list (cumulate [0] (sort m))) (cumulate [0] (sort m))
           \<and> max_list (cumulate [0] (sort m)) = sum_list m
           \<and> length fm = Suc (length m)
           \<and> (\<forall>k\<le>length m. fm ! k = sum_list (take k (sort m)) / sum_list m)
           \<and> sorted fm
           \<and> (\<forall>v\<in>set fm. 0 \<le> v \<and> v \<le> 1)
           \<and> last fm = 1"
proof -
  let ?ms = "sort m"
  let ?raw = "cumulate [0] ?ms"
  have ms_ne: "?ms \<noteq> []"
    using nonempty by (metis length_sort length_0_conv)
  have ms_pos: "\<forall>x\<in>set ?ms. 0 < x" using positive by simp
  then have ms_nonneg: "\<forall>x\<in>set ?ms. 0 \<le> x" by (simp add: less_imp_le)
  have raw: "?raw = 0 # psums 0 ?ms" by (simp add: cumulate_psums)
  have raw_sorted: "sorted ?raw" unfolding raw by (rule sorted_psums [OF ms_nonneg])
  have sum_eq: "sum_list ?ms = sum_list m" by (rule sum_list_sort)
  have raw_last: "last ?raw = sum_list m"
    unfolding raw using last_psums [of 0 ?ms] sum_eq by simp
  have raw_max: "max_list ?raw = sum_list m"
    using max_list_sorted [OF _ raw_sorted] raw raw_last by simp
  obtain x xs where mcons: "m = x # xs" using nonempty by (cases m) auto
  have "0 < x" and "\<forall>y\<in>set xs. 0 \<le> y" using positive mcons by (auto simp: less_imp_le)
  then have sum_pos: "0 < sum_list m"
    unfolding mcons using sum_list_nonneg [of xs] by (simp add: add_pos_nonneg)
  have raw_bounds: "\<forall>v\<in>set ?raw. 0 \<le> v \<and> v \<le> sum_list m"
  proof
    fix v assume v: "v \<in> set ?raw"
    have lower: "0 \<le> v"
      using v psums_lower [OF ms_nonneg, of v 0] unfolding raw by auto
    have "v \<le> last ?raw" by (rule sorted_le_last [OF raw_sorted v])
    with lower raw_last show "0 \<le> v \<and> v \<le> sum_list m" by simp
  qed
  have in_range: "\<not> list_ex (\<lambda>v. float_max < \<bar>v\<bar>) ?raw"
  proof
    assume "list_ex (\<lambda>v. float_max < \<bar>v\<bar>) ?raw"
    then obtain v where v: "v \<in> set ?raw" and big: "float_max < \<bar>v\<bar>"
      by (auto simp: list_ex_iff)
    from raw_bounds v have "0 \<le> v" and "v \<le> sum_list m" by simp_all
    with big finite show False by simp
  qed
  let ?fm = "map (\<lambda>v. v / sum_list m) ?raw"
  have res: "plot_cdf_fm float64 m = Inr ?fm"
    using ms_ne sum_pos raw_max in_range by (simp add: plot_cdf_fm_def Let_def)
  have fm_def: "?fm = map (\<lambda>v. v / max_list ?raw) ?raw" by (simp only: raw_max)
  have fm_length: "length ?fm = Suc (length m)" unfolding raw by (simp add: length_psums)
  have fm_nth: "\<forall>k\<le>length m. ?fm ! k = sum_list (take k ?ms) / sum_list m"
  proof (intro allI impI)
    fix k assume k: "k \<le> length m"
    then have "k \<le> length ?ms" by simp
    from nth_psums [OF this, of 0] have "?raw ! k = sum_list (take k ?ms)" by (simp add: raw)
    moreover from k have "k < length ?raw" unfolding raw by (simp add: length_psums)
    ultimately show "?fm ! k = sum_list (take k ?ms) / sum_list m" by simp
  qed
  have fm_sorted: "sorted ?fm" by (rule sorted_map_divide [OF sum_pos raw_sorted])
  have fm_bounds: "\<forall>v\<in>set ?fm. 0 \<le> v \<and> v \<le> 1"
    using raw_bounds sum_pos by (auto simp: divide_le_eq)
  have "?raw \<noteq> []" unfolding raw by simp
  then have fm_last: "last ?fm = 1"
    using raw_last sum_pos by (simp add: last_map)
  from res fm_def raw_max fm_length fm_nth fm_sorted fm_bounds fm_last show ?thesis by blast
qed

text \<open>The property at two floating-point masses, given out of order.\<close>

theorem plot_cdf_normalised_witness:
  "[3, 1] \<noteq> ([] :: real list) \<and> list_all (\<lambda>x. 0 < x) [3, 1 :: real]
   \<and> sum_list [3, 1] \<le> float_max
   \<and> plot_cdf_fm float64 [3, 1] = Inr [0, 1 / 4, 1]"
proof -
  have range: "sum_list [3, 1] \<le> float_max" by (simp add: float_max_def)
  have raw: "cumulate [0] (sort [3, 1 :: real]) = [0, 1, 4]" by simp
  have "max_list [0, 1, 4] = 4" by (simp add: max_list_def)
  with plot_cdf_normalised [of "[3, 1]"] range raw
  have "plot_cdf_fm float64 [3, 1] = Inr [0, 1 / 4, 1]" by simp
  with range show ?thesis by simp
qed

text \<open>
  C9 (as stated) fails for masses given as integers: \<open>fm\<close> stays an integer array, and
  its division in place raises \<open>TypeError\<close>.
\<close>

theorem plot_cdf_integer_masses:
  "plot_cdf_fm int64 [1, 2] = Inl TypeError"
  by (simp add: plot_cdf_fm_def)

text \<open>It fails as well for floating-point masses whose sum overflows: the last entry of
  \<open>fm\<close> is then nan, not 1.\<close>

lemma plot_cdf_overflow:
  "plot_cdf_fm float64 [float_max, float_max] = Inl NotANumber"
proof -
  have pos: "0 < float_max" by (simp add: float_max_def)
  then have "cumulate [0] (sort [float_max, float_max]) = [0, float_max, float_max + float_max]"
    by simp
  moreover have "max_list [0, float_max, float_max + float_max] = float_max + float_max"
    using pos by (simp add: max_list_def)
  ultimately show ?thesis using pos by (simp add: plot_cdf_fm_def)
qed

section \<open>Termination of the SPH production run\<close>






section \<open>The exception handler of \<open>setup_stellar_evolution_model\<close>\<close>

lemma mesa_loop_shape:
  "mesa_loop evolve_model se tr = Some y \<Longrightarrow>
     \<exists>n. snd (snd y) = tr @ concat (replicate n [Evolve_model stellar_evolution, Print])
                @ (case fst y of None \<Rightarrow> [] | Some e \<Rightarrow> [Evolve_model stellar_evolution])
       \<and> (case fst y of
             None \<Rightarrow> \<not> model_time (fst (snd y)) < 0.12 * units_Myr
           | Some e \<Rightarrow> \<exists>s. model_time s < 0.12 * units_Myr \<and> evolve_model s = (Some e, fst (snd y)))"
proof (induction evolve_model se tr y rule: mesa_loop.raw_induct [rotated 1, consumes 1])
  case (1 mesa_loop evolve_model se tr y)
  show ?case
  proof (cases "model_time se < 0.12 * units_Myr")
    case False
    with 1(2) have "y = (None, se, tr)" by simp
    with False show ?thesis by (intro exI [of _ 0]) simp
  next
    case True
    obtain r se' where ev: "evolve_model se = (r, se')" by (cases "evolve_model se")
    show ?thesis
    proof (cases r)
      case (Some e)
      with 1(2) True ev have "y = (Some e, se', tr @ [Evolve_model stellar_evolution])" by simp
      with True ev Some show ?thesis by (intro exI [of _ 0]) auto
    next
      case None
      with 1(2) True ev
      have "mesa_loop evolve_model se' (tr @ [Evolve_model stellar_evolution, Print]) = Some y"
        by simp
      from 1(1) [OF this] obtain n where
        n: "snd (snd y) = (tr @ [Evolve_model stellar_evolution, Print])
                @ concat (replicate n [Evolve_model stellar_evolution, Print])
                @ (case fst y of None \<Rightarrow> [] | Some e \<Rightarrow> [Evolve_model stellar_evolution])"
        and rest: "(case fst y of
             None \<Rightarrow> \<not> model_time (fst (snd y)) < 0.12 * units_Myr
           | Some e \<Rightarrow> \<exists>s. model_time s < 0.12 * units_Myr \<and> evolve_model s = (Some e, fst (snd y)))"
        by blast
      from n rest show ?thesis by (intro exI [of _ "Suc n"]) simp
    qed
  qed
qed

text \<open>
  C1. The claim is that the handler around the loop of \<open>setup_stellar_evolution_model\<close>
  catches the framework's exception, so that the state the solver was left in is pickled
  and the path of the pickle file is returned. In the notebook the name \<open>AmuseException\<close>
  is not bound. With a solver whose third call of \<open>evolve_model\<close> raises the framework's
  exception, a star of age 0 and an empty disk, the \<open>except\<close> clause itself raises
  \<open>NameError\<close>: the function returns no path, the disk stays empty, and the trace ends
  with the failing call of \<open>evolve_model\<close>: nothing is printed or pickled after it and
  the solver is not stopped.
\<close>

theorem setup_stellar_evolution_model_unbound_name:
  "setup_stellar_evolution_model notebook_globals ''results'' crashes \<lparr>model_time = 0\<rparr> Map.empty =
     Some (Inl (NameError ''AmuseException''), Map.empty,
           setup_prelude @ [Evolve_model stellar_evolution, Print, Evolve_model stellar_evolution, Print,
                            Evolve_model stellar_evolution])"
  by (simp add: setup_stellar_evolution_model_def mesa_loop.simps crashes_def steady_def units_Myr_def
      notebook_globals_def)

text \<open>
  The same holds for every solver and every exception: in the notebook, whatever a call
  of \<open>evolve_model\<close> raises inside the loop, the function ends with \<open>NameError\<close>, and the
  disk is as it was.
\<close>

lemma setup_stellar_evolution_model_catches_nothing:
  assumes "mesa_loop evolve_model se0 setup_prelude = Some (Some e, se, tr)"
  shows "setup_stellar_evolution_model notebook_globals d evolve_model se0 disk =
           Some (Inl (NameError ''AmuseException''), disk, tr)"
  using assms by (simp add: setup_stellar_evolution_model_def Let_def notebook_globals_def)

text \<open>A keyboard interrupt in the first call of \<open>evolve_model\<close> ends the same way.\<close>

lemma setup_stellar_evolution_model_interrupted:
  "setup_stellar_evolution_model notebook_globals ''results'' interrupted \<lparr>model_time = 0\<rparr> Map.empty =
     Some (Inl (NameError ''AmuseException''), Map.empty,
           setup_prelude @ [Evolve_model stellar_evolution])"
  by (simp add: setup_stellar_evolution_model_def mesa_loop.simps interrupted_def units_Myr_def
      notebook_globals_def)

text \<open>
  Had the notebook imported \<open>AmuseException\<close>, the same run would pickle the state in
  which the failing call left the solver into a new file, stop the solver and return the
  path; with the pickle file already on the disk, the pickling raises, and again no path
  is returned and the solver is not stopped.
\<close>

lemma setup_stellar_evolution_model_bound_name:
  "setup_stellar_evolution_model (''AmuseException'' # notebook_globals) ''results'' crashes
       \<lparr>model_time = 0\<rparr> Map.empty =
     Some (Inr ''results/super_giant_stellar_structure.pkl'',
           [''results/super_giant_stellar_structure.pkl'' \<mapsto> \<lparr>model_time = 2524554079488\<rparr>],
           setup_prelude @ [Evolve_model stellar_evolution, Print, Evolve_model stellar_evolution, Print,
                            Evolve_model stellar_evolution, Print, Print, Pickle_stellar_model,
                            Stop stellar_evolution])"
  by (simp add: setup_stellar_evolution_model_def mesa_loop.simps crashes_def steady_def units_Myr_def
      pickle_and_stop_def pickle_stellar_model_def path_join_def Let_def)

lemma setup_stellar_evolution_model_file_exists:
  "setup_stellar_evolution_model (''AmuseException'' # notebook_globals) ''results'' crashes
       \<lparr>model_time = 0\<rparr> [''results/super_giant_stellar_structure.pkl'' \<mapsto> \<lparr>model_time = 1\<rparr>] =
     Some (Inl AmuseWarning,
           [''results/super_giant_stellar_structure.pkl'' \<mapsto> \<lparr>model_time = 1\<rparr>],
           setup_prelude @ [Evolve_model stellar_evolution, Print, Evolve_model stellar_evolution, Print,
                            Evolve_model stellar_evolution, Print, Print, Pickle_stellar_model])"
  by (simp add: setup_stellar_evolution_model_def mesa_loop.simps crashes_def steady_def units_Myr_def
      pickle_and_stop_def pickle_stellar_model_def path_join_def Let_def)

section \<open>The frame of \<open>inject_supernova_energy\<close>\<close>

lemma select_position:
  "\<forall>p\<in>set ps. sph_particle p \<Longrightarrow>
   select (\<lambda>pos. length_squared pos < r ^ 2) ''position'' ps = Inr (filter (inside r) ps)"
proof (induction ps)
  case Nil
  then show ?case by simp
next
  case (Cons p ps)
  then have rest: "select (\<lambda>pos. length_squared pos < r ^ 2) ''position'' ps = Inr (filter (inside r) ps)"
    by simp
  from Cons.prems have "sph_particle p" by simp
  then obtain x y z where pos: "attrs p ''position'' = Some (Vector x y z)"
    by (auto simp: sph_particle_def split: option.splits attr_value.splits)
  have "inside r p \<longleftrightarrow> length_squared (x, y, z) < r ^ 2"
    using pos by (simp add: inside_def power2_eq_square)
  with rest pos show ?case by simp
qed

lemma total_mass_sum:
  "\<forall>p\<in>set ps. sph_particle p \<Longrightarrow> total_mass ps = Inr (sum_list (map (scalar ''mass'') ps))"
proof (induction ps)
  case Nil
  then show ?case by simp
next
  case (Cons p ps)
  then have rest: "total_mass ps = Inr (sum_list (map (scalar ''mass'') ps))" by simp
  from Cons.prems have "sph_particle p" by simp
  then obtain m where m: "attrs p ''mass'' = Some (Scalar m)"
    by (auto simp: sph_particle_def split: option.splits attr_value.splits)
  have "scalar ''mass'' p = m" using m by (simp add: scalar_def)
  with rest m show ?case by simp
qed

lemma subset_iadd_u:
  "\<forall>p\<in>set ps. sph_particle p \<Longrightarrow>
   subset_iadd ''u'' d inner ps =
     Inr (map (\<lambda>p. if key p \<in> key ` set inner
                    then p\<lparr>attrs := (attrs p)(''u'' \<mapsto> Scalar (scalar ''u'' p + d))\<rparr> else p) ps)"
proof (induction ps)
  case Nil
  then show ?case by simp
next
  case (Cons p ps)
  then have rest: "subset_iadd ''u'' d inner ps =
     Inr (map (\<lambda>p. if key p \<in> key ` set inner
                    then p\<lparr>attrs := (attrs p)(''u'' \<mapsto> Scalar (scalar ''u'' p + d))\<rparr> else p) ps)"
    by simp
  from Cons.prems have "sph_particle p" by simp
  then obtain u where u: "attrs p ''u'' = Some (Scalar u)"
    by (auto simp: sph_particle_def split: option.splits attr_value.splits)
  have "scalar ''u'' p = u" using u by (simp add: scalar_def)
  with rest u show ?case by simp
qed

lemma selected_key:
  assumes "distinct (map key ps)" and "p \<in> set ps"
  shows "key p \<in> key ` set (filter P ps) \<longleftrightarrow> P p"
proof
  assume "key p \<in> key ` set (filter P ps)"
  then obtain q where q: "q \<in> set ps" "P q" "key q = key p" by auto
  from assms(1) have "inj_on key (set ps)" by (simp add: distinct_map)
  with q(1,3) assms(2) have "q = p" by (auto dest: inj_onD)
  with q(2) show "P p" by simp
next
  assume "P p"
  with assms(2) show "key p \<in> key ` set (filter P ps)" by auto
qed

lemma total_mass_positive:
  "\<forall>p\<in>set ps. sph_particle p \<Longrightarrow> ps \<noteq> [] \<Longrightarrow> 0 < sum_list (map (scalar ''mass'') ps)"
proof (induction ps)
  case Nil
  then show ?case by simp
next
  case (Cons p ps)
  from Cons.prems have "sph_particle p" by simp
  then have m: "0 < scalar ''mass'' p"
    by (auto simp: sph_particle_def scalar_def split: option.splits attr_value.splits)
  show ?case
  proof (cases "ps = []")
    case True
    with m show ?thesis by simp
  next
    case False
    with Cons have "0 < sum_list (map (scalar ''mass'') ps)" by simp
    with m show ?thesis by simp
  qed
qed

text \<open>
  C8. Given SPH gas particles (each with a position, a positive mass and a specific
  internal energy \<open>u\<close>) of distinct identities, at least one of which lies inside the
  exploding region, \<open>inject_supernova_energy\<close> succeeds; the selected particles have a
  positive total mass; each particle whose position length-squared is less than the
  square of \<open>exploding_region\<close> gets \<open>u\<close> increased by \<open>explosion_energy\<close> divided by the
  total mass of the selected particles and keeps its identity and every other
  attribute; every other particle is unchanged.
\<close>

theorem inject_supernova_energy_frame:
  assumes wf: "\<forall>p\<in>set gas. sph_particle p"
    and keys: "distinct (map key gas)"
    and some: "\<exists>p\<in>set gas. inside r p"
  shows "\<exists>gas'. inject_supernova_energy gas E r = Inr gas'
           \<and> length gas' = length gas
           \<and> 0 < sum_list (map (scalar ''mass'') (filter (inside r) gas))
           \<and> (\<forall>i<length gas.
                 (inside r (gas ! i) \<longrightarrow>
                    gas' ! i = (gas ! i)\<lparr>attrs := (attrs (gas ! i))(''u'' \<mapsto>
                       Scalar (scalar ''u'' (gas ! i)
                               + E / sum_list (map (scalar ''mass'') (filter (inside r) gas))))\<rparr>)
               \<and> (\<not> inside r (gas ! i) \<longrightarrow> gas' ! i = gas ! i)
               \<and> key (gas' ! i) = key (gas ! i)
               \<and> (\<forall>a. a \<noteq> ''u'' \<longrightarrow> attrs (gas' ! i) a = attrs (gas ! i) a))"
proof -
  let ?inner = "filter (inside r) gas"
  let ?M = "sum_list (map (scalar ''mass'') ?inner)"
  let ?upd = "\<lambda>p. if key p \<in> key ` set ?inner
                    then p\<lparr>attrs := (attrs p)(''u'' \<mapsto> Scalar (scalar ''u'' p + E / ?M))\<rparr> else p"
  have sel: "select (\<lambda>pos. length_squared pos < r ^ 2) ''position'' gas = Inr ?inner"
    by (rule select_position [OF wf])
  have wf_inner: "\<forall>p\<in>set ?inner. sph_particle p" using wf by simp
  have tm: "total_mass ?inner = Inr ?M" by (rule total_mass_sum [OF wf_inner])
  from some have ne: "?inner \<noteq> []" by (auto simp: filter_empty_conv)
  have pos: "0 < ?M" by (rule total_mass_positive [OF wf_inner ne])
  have res: "inject_supernova_energy gas E r = Inr (map ?upd gas)"
    using sel tm pos subset_iadd_u [OF wf, of "E / ?M" ?inner]
    by (simp add: inject_supernova_energy_def)
  have each: "(inside r (gas ! i) \<longrightarrow>
                 map ?upd gas ! i = (gas ! i)\<lparr>attrs := (attrs (gas ! i))(''u'' \<mapsto>
                       Scalar (scalar ''u'' (gas ! i) + E / ?M))\<rparr>)
            \<and> (\<not> inside r (gas ! i) \<longrightarrow> map ?upd gas ! i = gas ! i)
            \<and> key (map ?upd gas ! i) = key (gas ! i)
            \<and> (\<forall>a. a \<noteq> ''u'' \<longrightarrow> attrs (map ?upd gas ! i) a = attrs (gas ! i) a)"
    if i: "i < length gas" for i
  proof -
    from i have mem: "gas ! i \<in> set gas" by simp
    from selected_key [OF keys mem, of "inside r"] i show ?thesis by simp
  qed
  from res pos each show ?thesis by simp
qed

text \<open>The property at three particles, two of them inside a region of radius 2, and an
  energy of 10: the two share it in proportion to nothing but the total mass 5.\<close>

theorem inject_supernova_energy_frame_witness:
  "list_all sph_particle gas3 \<and> distinct (map key gas3) \<and> (\<exists>p\<in>set gas3. inside 2 p)
   \<and> (\<exists>gas'. inject_supernova_energy gas3 10 2 = Inr gas'
           \<and> length gas' = length gas3
           \<and> 0 < sum_list (map (scalar ''mass'') (filter (inside 2) gas3))
           \<and> (\<forall>i<length gas3.
                 (inside 2 (gas3 ! i) \<longrightarrow>
                    gas' ! i = (gas3 ! i)\<lparr>attrs := (attrs (gas3 ! i))(''u'' \<mapsto>
                       Scalar (scalar ''u'' (gas3 ! i)
                               + 10 / sum_list (map (scalar ''mass'') (filter (inside 2) gas3))))\<rparr>)
               \<and> (\<not> inside 2 (gas3 ! i) \<longrightarrow> gas' ! i = gas3 ! i)
               \<and> key (gas' ! i) = key (gas3 ! i)
               \<and> (\<forall>a. a \<noteq> ''u'' \<longrightarrow> attrs (gas' ! i) a = attrs (gas3 ! i) a)))"
proof -
  have wf: "\<forall>p\<in>set gas3. sph_particle p" by (simp add: gas3_def sph_particle_def)
  have keys: "distinct (map key gas3)" by (simp add: gas3_def)
  have some: "\<exists>p\<in>set gas3. inside 2 p" by (simp add: gas3_def inside_def)
  from wf have all: "list_all sph_particle gas3" by (simp add: list_all_iff)
  from inject_supernova_energy_frame [OF wf keys some, of 10] all keys some
  show ?thesis by blast
qed

lemma inject_supernova_energy_gas3:
  "inject_supernova_energy gas3 10 2 =
     Inr [\<lparr>key = 1, attrs = [''position'' \<mapsto> Vector 0 0 0, ''mass'' \<mapsto> Scalar 2, ''u'' \<mapsto> Scalar 3]\<rparr>,
          \<lparr>key = 2, attrs = [''position'' \<mapsto> Vector 1 0 0, ''mass'' \<mapsto> Scalar 3, ''u'' \<mapsto> Scalar 2]\<rparr>,
          \<lparr>key = 3, attrs = [''position'' \<mapsto> Vector 5 5 5, ''mass'' \<mapsto> Scalar 1, ''u'' \<mapsto> Scalar 7]\<rparr>]"
  by (simp add: inject_supernova_energy_def gas3_def)

text \<open>With no particle inside the region the total mass of the selection is zero, and the
  energy is divided by zero.\<close>

lemma inject_supernova_energy_empty_region:
  assumes wf: "\<forall>p\<in>set gas. sph_particle p" and none: "\<not> (\<exists>p\<in>set gas. inside r p)"
  shows "total_mass (filter (inside r) gas) = Inr 0"
    and "inject_supernova_energy gas E r = Inl NotANumber"
proof -
  from none have empty: "filter (inside r) gas = []" by (auto simp: filter_empty_conv)
  then show "total_mass (filter (inside r) gas) = Inr 0" by simp
  from select_position [OF wf, of r] empty
  show "inject_supernova_energy gas E r = Inl NotANumber"
    by (simp add: inject_supernova_energy_def)
qed

section \<open>The shape of the runs and the lifecycle of the solvers\<close>

lemma sph_loop_shape:
  "sph_loop evolve_model hc tr = Some y \<Longrightarrow>
     \<exists>n. snd y = tr @ concat (replicate n [Evolve_model hydro_code, Print, Plot])
                @ (case fst y of Inl e \<Rightarrow> [Evolve_model hydro_code] | Inr hc' \<Rightarrow> [])"
proof (induction evolve_model hc tr y rule: sph_loop.raw_induct [rotated 1, consumes 1])
  case (1 sph_loop evolve_model hc tr y)
  show ?case
  proof (cases "model_time hc < 0.3 * units_day")
    case False
    with 1(2) have "y = (Inr hc, tr)" by simp
    then show ?thesis by (intro exI [of _ 0]) simp
  next
    case True
    show ?thesis
    proof (cases "evolve_model hc (model_time hc + 1 * units_hour)")
      case (Inl e)
      with 1(2) True have "y = (Inl e, tr @ [Evolve_model hydro_code])" by simp
      then show ?thesis by (intro exI [of _ 0]) simp
    next
      case (Inr hc')
      with 1(2) True
      have "sph_loop evolve_model hc' (tr @ [Evolve_model hydro_code, Print, Plot]) = Some y"
        by simp
      from 1(1) [OF this] obtain n where
        "snd y = (tr @ [Evolve_model hydro_code, Print, Plot])
                @ concat (replicate n [Evolve_model hydro_code, Print, Plot])
                @ (case fst y of Inl e \<Rightarrow> [Evolve_model hydro_code] | Inr hc' \<Rightarrow> [])"
        by blast
      then show ?thesis by (intro exI [of _ "Suc n"]) simp
    qed
  qed
qed

lemma evolve_then_shape:
  "evolve_then evolve_model t after (Inr hc, tr) = (r, tr') \<Longrightarrow>
     tr' = tr @ Evolve_model hydro_code # (case r of Inl e \<Rightarrow> [] | Inr hc' \<Rightarrow> after)"
  by (auto simp: evolve_then_def split: sum.splits)

lemma evolve_then_Inl: "evolve_then evolve_model t after (Inl e, tr) = (Inl e, tr)"
  by (simp add: evolve_then_def)

lemma sph_production_complete:
  assumes "sph_production evolve_model hc tr = Some (Inr hc', tr')"
  shows "\<exists>n. tr' = tr @ production_prelude
                 @ concat (replicate n [Evolve_model hydro_code, Print, Plot])
                 @ [Print, Print, Stop hydro_code]"
proof -
  obtain r1 t1 where e1: "evolve_then evolve_model (10.0 * units_s) [Print, Plot, Print] (Inr hc, tr) = (r1, t1)"
    by (cases "evolve_then evolve_model (10.0 * units_s) [Print, Plot, Print] (Inr hc, tr)")
  obtain r2 t2 where e2: "evolve_then evolve_model (1.0 * units_minute) [Print, Plot, Print, Print] (r1, t1) = (r2, t2)"
    by (cases "evolve_then evolve_model (1.0 * units_minute) [Print, Plot, Print, Print] (r1, t1)")
  obtain r3 t3 where e3: "evolve_then evolve_model (1.0 * units_hour) [Print, Plot] (r2, t2) = (r3, t3)"
    by (cases "evolve_then evolve_model (1.0 * units_hour) [Print, Plot] (r2, t2)")
  from assms e1 e2 e3 obtain h3 where r3: "r3 = Inr h3"
    by (cases r3) (auto simp: sph_production_def)
  with e3 obtain h2 where r2: "r2 = Inr h2"
    by (cases r2) (auto simp: evolve_then_Inl)
  with e2 obtain h1 where r1: "r1 = Inr h1"
    by (cases r1) (auto simp: evolve_then_Inl)
  from evolve_then_shape [OF e1] r1 have t1: "t1 = tr @ [Evolve_model hydro_code, Print, Plot, Print]"
    by simp
  from evolve_then_shape [OF e2 [unfolded r1]] r2
  have t2: "t2 = t1 @ [Evolve_model hydro_code, Print, Plot, Print, Print]" by simp
  from evolve_then_shape [OF e3 [unfolded r2]] r3
  have t3: "t3 = t2 @ [Evolve_model hydro_code, Print, Plot]" by simp
  from assms e1 e2 e3 r3 obtain tr'' where
    l: "sph_loop evolve_model h3 t3 = Some (Inr hc', tr'')" and tr': "tr' = tr'' @ [Print, Print, Stop hydro_code]"
    by (auto simp: sph_production_def split: option.splits sum.splits)
  from sph_loop_shape [OF l] obtain n where
    "tr'' = t3 @ concat (replicate n [Evolve_model hydro_code, Print, Plot])" by auto
  with tr' t1 t2 t3 have "tr' = tr @ production_prelude
                 @ concat (replicate n [Evolve_model hydro_code, Print, Plot])
                 @ [Print, Print, Stop hydro_code]"
    by (simp add: production_prelude_def)
  then show ?thesis by blast
qed

lemma setup_complete:
  assumes "setup_stellar_evolution_model g d evolve_model se0 disk = Some (Inr f, disk', tr)"
  shows "\<exists>n se c. tr = setup_prelude @ concat (replicate n [Evolve_model stellar_evolution, Print])
                 @ (if c then [Evolve_model stellar_evolution, Print, Print] else [])
                 @ [Pickle_stellar_model, Stop stellar_evolution]
            \<and> (model_time se0 < 0.12 * units_Myr \<longrightarrow> 0 < n \<or> c)
            \<and> f = path_join d ''super_giant_stellar_structure.pkl''
            \<and> disk' = disk(f \<mapsto> se)"
proof -
  from assms obtain r se tr0 where l: "mesa_loop evolve_model se0 setup_prelude = Some (r, se, tr0)"
    by (auto simp: setup_stellar_evolution_model_def Let_def split: option.splits)
  from mesa_loop_shape [OF l] obtain n where
    n: "tr0 = setup_prelude @ concat (replicate n [Evolve_model stellar_evolution, Print])
                @ (case r of None \<Rightarrow> [] | Some e \<Rightarrow> [Evolve_model stellar_evolution])" by auto
  show ?thesis
  proof (cases r)
    case None
    with assms l have res: "f = path_join d ''super_giant_stellar_structure.pkl''"
      "disk' = disk(f \<mapsto> se)" "tr = tr0 @ [Pickle_stellar_model, Stop stellar_evolution]"
      by (auto simp: setup_stellar_evolution_model_def Let_def pickle_and_stop_def pickle_stellar_model_def split: if_splits)
    have pos: "0 < n" if fresh: "model_time se0 < 0.12 * units_Myr"
    proof (rule ccontr)
      assume "\<not> 0 < n"
      then have "n = 0" by simp
      from l None have "mesa_loop evolve_model se0 setup_prelude = Some (None, se, tr0)" by simp
      moreover from n \<open>n = 0\<close> None have "tr0 = setup_prelude" by simp
      ultimately show False using fresh
        by (subst (asm) mesa_loop.simps) (auto split: prod.splits option.splits dest: mesa_loop_shape)
    qed
    from res n None pos show ?thesis
      by (intro exI [of _ n] exI [of _ se] exI [of _ False]) simp
  next
    case (Some e)
    with assms l have res: "f = path_join d ''super_giant_stellar_structure.pkl''"
      "disk' = disk(f \<mapsto> se)" "tr = tr0 @ [Print, Print, Pickle_stellar_model, Stop stellar_evolution]"
      by (auto simp: setup_stellar_evolution_model_def Let_def pickle_and_stop_def pickle_stellar_model_def split: if_splits)
    from res n Some show ?thesis
      by (intro exI [of _ n] exI [of _ se] exI [of _ True]) simp
  qed
qed

lemma sph_notebook_complete:
  assumes "sph_notebook g d mesa_evolve_model se0 fi_evolve_model hc0 disk = Some (Inr hc, disk', tr)"
  shows "\<exists>n c m se. tr = setup_prelude @ concat (replicate n [Evolve_model stellar_evolution, Print])
                 @ (if c then [Evolve_model stellar_evolution, Print, Print] else [])
                 @ [Pickle_stellar_model, Stop stellar_evolution]
                 @ sph_setup @ production_prelude
                 @ concat (replicate m [Evolve_model hydro_code, Print, Plot])
                 @ [Print, Print, Stop hydro_code]
            \<and> (model_time se0 < 0.12 * units_Myr \<longrightarrow> 0 < n \<or> c)
            \<and> disk' = disk(path_join d ''super_giant_stellar_structure.pkl'' \<mapsto> se)"
proof -
  from assms obtain f tr0 where
    s: "setup_stellar_evolution_model g d mesa_evolve_model se0 disk = Some (Inr f, disk', tr0)"
    and p: "sph_production fi_evolve_model hc0 (tr0 @ sph_setup) = Some (Inr hc, tr)"
    by (auto simp: sph_notebook_def split: option.splits sum.splits)
  from setup_complete [OF s] obtain n se c where
    tr0: "tr0 = setup_prelude @ concat (replicate n [Evolve_model stellar_evolution, Print])
                 @ (if c then [Evolve_model stellar_evolution, Print, Print] else [])
                 @ [Pickle_stellar_model, Stop stellar_evolution]"
    and pos: "model_time se0 < 0.12 * units_Myr \<longrightarrow> 0 < n \<or> c"
    and d: "disk' = disk(path_join d ''super_giant_stellar_structure.pkl'' \<mapsto> se)" by blast
  from sph_production_complete [OF p] obtain m where
    tr: "tr = (tr0 @ sph_setup) @ production_prelude
                 @ concat (replicate m [Evolve_model hydro_code, Print, Plot])
                 @ [Print, Print, Stop hydro_code]" by blast
  have "tr = setup_prelude @ concat (replicate n [Evolve_model stellar_evolution, Print])
                 @ (if c then [Evolve_model stellar_evolution, Print, Print] else [])
                 @ [Pickle_stellar_model, Stop stellar_evolution]
                 @ sph_setup @ production_prelude
                 @ concat (replicate m [Evolve_model hydro_code, Print, Plot])
                 @ [Print, Print, Stop hydro_code]"
    unfolding tr tr0 by simp
  with pos d show ?thesis by blast
qed

lemma fold_iterations:
  assumes "fold f it a = b" and "fold f it b = b"
  shows "fold f (concat (replicate n it)) a = (if n = 0 then a else b)"
proof -
  have fixed: "fold f (concat (replicate k it)) b = b" for k
    by (induction k) (simp_all add: assms(2))
  show ?thesis by (cases n) (simp_all add: assms(1) fixed)
qed

lemma violated_absorbing: "fold (lifecycle_step converter s) tr Violated = Violated"
  by (induction tr) (simp_all add: lifecycle_step_def)

lemma nbody_iteration_phase:
  "fold (lifecycle_step True gravity) (nbody_iteration outcome) Loaded = Evolved"
  "fold (lifecycle_step True gravity) (nbody_iteration outcome) Evolved = Evolved"
  by (cases outcome; cases "fst outcome"; cases "snd outcome";
      simp add: nbody_iteration_def lifecycle_step_def)+

lemma nbody_iterations_phase:
  "fold (lifecycle_step True gravity) (concat (map nbody_iteration outcomes)) Evolved = Evolved"
  by (induction outcomes) (simp_all add: nbody_iteration_phase)

lemma nbody_lifecycle:
  assumes "outcomes \<noteq> []"
  shows "lifecycle True gravity (nbody_notebook outcomes) = Evolved"
proof -
  obtain out rest where cons: "outcomes = out # rest" using assms by (cases outcomes) auto
  have pre: "fold (lifecycle_step True gravity) nbody_setup Absent = Loaded"
    by (simp add: nbody_setup_def lifecycle_step_def)
  have "fold (lifecycle_step True gravity) (concat (map nbody_iteration outcomes)) Loaded = Evolved"
    unfolding cons by (simp add: nbody_iteration_phase nbody_iterations_phase)
  moreover have "fold (lifecycle_step True gravity) [Plot] Evolved = Evolved"
    by (simp add: lifecycle_step_def)
  ultimately show ?thesis
    unfolding lifecycle_def nbody_notebook_def
    by (simp only: fold_append o_apply pre)
qed

lemma kstellar_lifecycle:
  assumes "0 < n"
  shows "lifecycle False kstellar (stellar_notebook n) = Stopped"
proof -
  let ?f = "lifecycle_step False kstellar"
  have pre: "fold ?f stellar_setup Absent = Loaded"
    by (simp add: stellar_setup_def start_stellar_code_def lifecycle_step_def)
  have loop: "fold ?f (concat (replicate n stellar_iteration)) Loaded = Evolved"
    using fold_iterations [of ?f stellar_iteration Loaded Evolved n] assms
    by (simp add: stellar_iteration_def lifecycle_step_def)
  have post: "fold ?f [Stop kstellar, Stop sstellar, Print, Print, Plot, Plot] Evolved = Stopped"
    by (simp add: lifecycle_step_def)
  show ?thesis
    unfolding lifecycle_def stellar_notebook_def
    by (simp only: fold_append o_apply pre loop post)
qed

lemma sstellar_lifecycle:
  assumes "0 < n"
  shows "lifecycle False sstellar (stellar_notebook n) = Stopped"
proof -
  let ?f = "lifecycle_step False sstellar"
  have pre: "fold ?f stellar_setup Absent = Loaded"
    by (simp add: stellar_setup_def start_stellar_code_def lifecycle_step_def)
  have loop: "fold ?f (concat (replicate n stellar_iteration)) Loaded = Evolved"
    using fold_iterations [of ?f stellar_iteration Loaded Evolved n] assms
    by (simp add: stellar_iteration_def lifecycle_step_def)
  have post: "fold ?f [Stop kstellar, Stop sstellar, Print, Print, Plot, Plot] Evolved = Stopped"
    by (simp add: lifecycle_step_def)
  show ?thesis
    unfolding lifecycle_def stellar_notebook_def
    by (simp only: fold_append o_apply pre loop post)
qed

lemma sph_lifecycle:
  assumes run: "sph_notebook g d mesa_evolve_model se0 fi_evolve_model hc0 disk = Some (Inr hc, disk', tr)"
    and fresh: "model_time se0 < 0.12 * units_Myr"
  shows "lifecycle False stellar_evolution tr = Stopped" and "lifecycle True hydro_code tr = Stopped"
proof -
  from sph_notebook_complete [OF run] fresh obtain n c m where
    tr: "tr = setup_prelude @ concat (replicate n [Evolve_model stellar_evolution, Print])
                 @ (if c then [Evolve_model stellar_evolution, Print, Print] else [])
                 @ [Pickle_stellar_model, Stop stellar_evolution]
                 @ sph_setup @ production_prelude
                 @ concat (replicate m [Evolve_model hydro_code, Print, Plot])
                 @ [Print, Print, Stop hydro_code]"
    and pos: "0 < n \<or> c" by blast
  let ?f = "lifecycle_step False stellar_evolution"
  let ?h = "lifecycle_step True hydro_code"
  have f1: "fold ?f setup_prelude Absent = Loaded"
    by (simp add: setup_prelude_def lifecycle_step_def)
  have f2: "fold ?f (concat (replicate n [Evolve_model stellar_evolution, Print])) Loaded
              = (if n = 0 then Loaded else Evolved)"
    by (rule fold_iterations) (simp_all add: lifecycle_step_def)
  have f3: "fold ?f (if c then [Evolve_model stellar_evolution, Print, Print] else [])
              (if n = 0 then Loaded else Evolved) = Evolved"
  proof (cases c)
    case True
    then show ?thesis by (cases "n = 0") (simp_all add: lifecycle_step_def)
  next
    case False
    with pos show ?thesis by simp
  qed
  have f4: "fold ?f [Pickle_stellar_model, Stop stellar_evolution] Evolved = Stopped"
    by (simp add: lifecycle_step_def)
  have f5: "fold ?f sph_setup Stopped = Stopped"
    by (simp add: sph_setup_def lifecycle_step_def)
  have f6: "fold ?f production_prelude Stopped = Stopped"
    by (simp add: production_prelude_def lifecycle_step_def)
  have f7: "fold ?f (concat (replicate m [Evolve_model hydro_code, Print, Plot])) Stopped = Stopped"
    using fold_iterations [of ?f "[Evolve_model hydro_code, Print, Plot]" Stopped Stopped m]
    by (simp add: lifecycle_step_def)
  have f8: "fold ?f [Print, Print, Stop hydro_code] Stopped = Stopped"
    by (simp add: lifecycle_step_def)
  show "lifecycle False stellar_evolution tr = Stopped"
    unfolding lifecycle_def tr
    by (simp only: fold_append o_apply f1 f2 f3 f4 f5 f6 f7 f8)
  have h1: "fold ?h setup_prelude Absent = Absent"
    by (simp add: setup_prelude_def lifecycle_step_def)
  have h2: "fold ?h (concat (replicate n [Evolve_model stellar_evolution, Print])) Absent = Absent"
    using fold_iterations [of ?h "[Evolve_model stellar_evolution, Print]" Absent Absent n]
    by (simp add: lifecycle_step_def)
  have h3: "fold ?h (if c then [Evolve_model stellar_evolution, Print, Print] else []) Absent = Absent"
    by (simp add: lifecycle_step_def)
  have h4: "fold ?h [Pickle_stellar_model, Stop stellar_evolution] Absent = Absent"
    by (simp add: lifecycle_step_def)
  have h5: "fold ?h sph_setup Absent = Loaded"
    by (simp add: sph_setup_def lifecycle_step_def)
  have h6: "fold ?h production_prelude Loaded = Evolved"
    by (simp add: production_prelude_def lifecycle_step_def)
  have h7: "fold ?h (concat (replicate m [Evolve_model hydro_code, Print, Plot])) Evolved = Evolved"
    using fold_iterations [of ?h "[Evolve_model hydro_code, Print, Plot]" Evolved Evolved m]
    by (simp add: lifecycle_step_def)
  have h8: "fold ?h [Print, Print, Stop hydro_code] Evolved = Stopped"
    by (simp add: lifecycle_step_def)
  show "lifecycle True hydro_code tr = Stopped"
    unfolding lifecycle_def tr
    by (simp only: fold_append o_apply h1 h2 h3 h4 h5 h6 h7 h8)
qed

text \<open>
  C2 (as amended). Every solver of the notebooks is constructed, then has its particles
  added, then is advanced by \<open>evolve_model\<close>, in this order. The N-body solver ph4
  (\<open>gravity\<close>) and the SPH solver Fi (\<open>hydro_code\<close>) are constructed with a unit
  converter; the stellar-evolution solvers SeBa (\<open>kstellar\<close>, \<open>sstellar\<close>) and MESA
  (\<open>stellar_evolution\<close>) are constructed without one. The SeBa solvers, and MESA and Fi
  in a run of the SPH notebook that no exception ends, are stopped after their last
  \<open>evolve_model\<close>. (The loops run at least once: the lists of times are not empty, and a
  fresh MESA solver has a model time below 0.12 Myr.)
\<close>

theorem solver_lifecycle_order:
  "(outcomes \<noteq> [] \<longrightarrow> lifecycle True gravity (nbody_notebook outcomes) \<in> {Evolved, Stopped})
   \<and> (0 < n \<longrightarrow> lifecycle False kstellar (stellar_notebook n) = Stopped
                \<and> lifecycle False sstellar (stellar_notebook n) = Stopped)
   \<and> (model_time se0 < 0.12 * units_Myr
        \<and> sph_notebook g d mesa_evolve_model se0 fi_evolve_model hc0 disk = Some (Inr hc, disk', tr)
       \<longrightarrow> lifecycle False stellar_evolution tr = Stopped \<and> lifecycle True hydro_code tr = Stopped)"
  using nbody_lifecycle [of outcomes] kstellar_lifecycle [of n] sstellar_lifecycle [of n]
    sph_lifecycle [of g d mesa_evolve_model se0 fi_evolve_model hc0 disk hc disk' tr]
  by simp

text \<open>A run of the SPH notebook that no exception ends, at concrete solvers.\<close>

lemma replicate7: "replicate 7 x = [x, x, x, x, x, x, x]"
  by (simp add: numeral_eq_Suc)

lemma sph_notebook_steady:
  "sph_notebook notebook_globals ''results'' steady \<lparr>model_time = 0\<rparr> evolve_to \<lparr>model_time = 0\<rparr> Map.empty =
     Some (Inr \<lparr>model_time = 28800\<rparr>,
           [''results/super_giant_stellar_structure.pkl'' \<mapsto> \<lparr>model_time = 3786831119232\<rparr>],
           setup_prelude
           @ [Evolve_model stellar_evolution, Print, Evolve_model stellar_evolution, Print,
              Evolve_model stellar_evolution, Print, Pickle_stellar_model, Stop stellar_evolution]
           @ sph_setup @ production_prelude
           @ concat (replicate 7 [Evolve_model hydro_code, Print, Plot])
           @ [Print, Print, Stop hydro_code])"
proof -
  have l: "mesa_loop steady \<lparr>model_time = 0\<rparr> setup_prelude =
      Some (None, \<lparr>model_time = 3786831119232\<rparr>,
            setup_prelude @ [Evolve_model stellar_evolution, Print, Evolve_model stellar_evolution, Print,
                             Evolve_model stellar_evolution, Print])"
    by (simp add: mesa_loop.simps steady_def units_Myr_def)
  have s: "setup_stellar_evolution_model notebook_globals ''results'' steady \<lparr>model_time = 0\<rparr> Map.empty =
      Some (Inr ''results/super_giant_stellar_structure.pkl'',
           [''results/super_giant_stellar_structure.pkl'' \<mapsto> \<lparr>model_time = 3786831119232\<rparr>],
           setup_prelude
           @ [Evolve_model stellar_evolution, Print, Evolve_model stellar_evolution, Print,
              Evolve_model stellar_evolution, Print, Pickle_stellar_model, Stop stellar_evolution])"
    by (simp add: setup_stellar_evolution_model_def l pickle_and_stop_def pickle_stellar_model_def path_join_def Let_def)
  have ideal: "sets_model_time (evolve_to :: code_state \<Rightarrow> real \<Rightarrow> exn + code_state)"
    by (simp add: sets_model_time_def evolve_to_def)
  have p: "sph_production evolve_to \<lparr>model_time = 0\<rparr> tr =
      Some (Inr \<lparr>model_time = 28800\<rparr>, tr @ production_prelude
              @ concat (replicate 7 [Evolve_model hydro_code, Print, Plot])
              @ [Print, Print, Stop hydro_code])" for tr
    by (simp add: sph_production_def evolve_then_def evolve_to_def sph_loop.simps
        units_s_def units_minute_def units_hour_def units_day_def production_prelude_def
        replicate7)
  show ?thesis by (simp add: sph_notebook_def s p)
qed

text \<open>The lifecycles at a one-iteration N-body run, at the stellar notebook's 40 times and
  at the run of the SPH notebook above.\<close>

theorem solver_lifecycle_order_witness:
  "[(True, False)] \<noteq> [] \<and> lifecycle True gravity (nbody_notebook [(True, False)]) \<in> {Evolved, Stopped}
   \<and> (0::nat) < 40 \<and> lifecycle False kstellar (stellar_notebook 40) = Stopped
   \<and> lifecycle False sstellar (stellar_notebook 40) = Stopped
   \<and> model_time \<lparr>model_time = 0\<rparr> < 0.12 * units_Myr
   \<and> (\<exists>hc disk' tr.
         sph_notebook notebook_globals ''results'' steady \<lparr>model_time = 0\<rparr> evolve_to \<lparr>model_time = 0\<rparr>
            Map.empty = Some (Inr hc, disk', tr)
         \<and> lifecycle False stellar_evolution tr = Stopped \<and> lifecycle True hydro_code tr = Stopped)"
proof -
  have fresh: "model_time \<lparr>model_time = 0\<rparr> < 0.12 * units_Myr" by (simp add: units_Myr_def)
  let ?tr = "setup_prelude
           @ [Evolve_model stellar_evolution, Print, Evolve_model stellar_evolution, Print,
              Evolve_model stellar_evolution, Print, Pickle_stellar_model, Stop stellar_evolution]
           @ sph_setup @ production_prelude
           @ concat (replicate 7 [Evolve_model hydro_code, Print, Plot])
           @ [Print, Print, Stop hydro_code]"
  note a = solver_lifecycle_order [where outcomes = "[(True, False)]" and n = 40
      and ?se0.0 = "\<lparr>model_time = 0\<rparr>" and g = notebook_globals and d = "''results''"
      and mesa_evolve_model = steady and fi_evolve_model = evolve_to and ?hc0.0 = "\<lparr>model_time = 0\<rparr>"
      and disk = Map.empty and hc = "\<lparr>model_time = 28800\<rparr>"
      and disk' = "[''results/super_giant_stellar_structure.pkl'' \<mapsto> \<lparr>model_time = 3786831119232\<rparr>]"
      and tr = ?tr]
  from a have nbody: "lifecycle True gravity (nbody_notebook [(True, False)]) \<in> {Evolved, Stopped}"
    by simp
  from a have stellar: "lifecycle False kstellar (stellar_notebook 40) = Stopped
      \<and> lifecycle False sstellar (stellar_notebook 40) = Stopped" by simp
  from a fresh sph_notebook_steady
  have sph: "lifecycle False stellar_evolution ?tr = Stopped \<and> lifecycle True hydro_code ?tr = Stopped"
    by blast
  from sph sph_notebook_steady
  have run: "\<exists>hc disk' tr.
         sph_notebook notebook_globals ''results'' steady \<lparr>model_time = 0\<rparr> evolve_to \<lparr>model_time = 0\<rparr>
            Map.empty = Some (Inr hc, disk', tr)
         \<and> lifecycle False stellar_evolution tr = Stopped \<and> lifecycle True hydro_code tr = Stopped"
    by blast
  from nbody stellar fresh run show ?thesis by simp
qed

text \<open>
  C2 (as stated) fails: \<open>SeBa()\<close> is called without a unit converter, so the lifecycle
  that asks for a converter at construction is violated by \<open>kstellar\<close> in the stellar
  notebook.
\<close>

theorem lifecycle_without_converter:
  "lifecycle True kstellar (stellar_notebook 40) = Violated"
proof -
  have "fold (lifecycle_step True kstellar) stellar_setup Absent = Violated"
    by (simp add: stellar_setup_def start_stellar_code_def lifecycle_step_def)
  then show ?thesis
    unfolding lifecycle_def stellar_notebook_def
    by (simp only: fold_append o_apply violated_absorbing)
qed

section \<open>Channel copies\<close>

lemma find_key:
  "distinct (map key src) \<Longrightarrow> p \<in> set src \<Longrightarrow> find (\<lambda>q. key q = key p) src = Some p"
proof (induction src)
  case Nil
  then show ?case by simp
next
  case (Cons q src)
  show ?case
  proof (cases "p = q")
    case True
    then show ?thesis by simp
  next
    case False
    with Cons.prems have mem: "p \<in> set src" by simp
    with Cons.prems(1) have "key q \<noteq> key p" by force
    with Cons.IH mem Cons.prems(1) show ?thesis by simp
  qed
qed

lemma find_no_key:
  "key q \<notin> key ` set src \<Longrightarrow> find (\<lambda>p. key p = key q) src = None"
  by (induction src) auto

text \<open>
  C4. After a channel copy from a solver's particles (of distinct identities) to the
  in-memory collection, each particle of the collection keeps its identity, and every
  attribute that the solver holds for the particle of the same identity has the solver's
  value in the collection: the value is replaced, not combined with the old one.
  Attributes that the solver does not hold, and particles that the solver does not hold,
  are as before.
\<close>

theorem channel_copy_overwrites:
  assumes ids: "distinct (map key from_particles)"
  shows "\<forall>i<length to_particles.
           (\<forall>p\<in>set from_particles. key p = key (to_particles ! i) \<longrightarrow>
              key (channel_copy from_particles to_particles ! i) = key p
              \<and> (\<forall>a\<in>dom (attrs p).
                    attrs (channel_copy from_particles to_particles ! i) a = attrs p a)
              \<and> (\<forall>a. a \<notin> dom (attrs p) \<longrightarrow>
                    attrs (channel_copy from_particles to_particles ! i) a
                      = attrs (to_particles ! i) a))
         \<and> (key (to_particles ! i) \<notin> key ` set from_particles \<longrightarrow>
              channel_copy from_particles to_particles ! i = to_particles ! i)"
proof (intro allI impI conjI ballI)
  fix i p
  assume i: "i < length to_particles" and p: "p \<in> set from_particles"
    and k: "key p = key (to_particles ! i)"
  from find_key [OF ids p] k
  have f: "find (\<lambda>q. key q = key (to_particles ! i)) from_particles = Some p" by simp
  with i have c: "channel_copy from_particles to_particles ! i
      = (to_particles ! i)\<lparr>attrs := attrs (to_particles ! i) ++ attrs p\<rparr>"
    by (simp add: channel_copy_def)
  show "key (channel_copy from_particles to_particles ! i) = key p" using c k by simp
  show "attrs (channel_copy from_particles to_particles ! i) a = attrs p a"
    if "a \<in> dom (attrs p)" for a
    using c that by (auto simp: map_add_dom_app_simps)
  show "attrs (channel_copy from_particles to_particles ! i) a = attrs (to_particles ! i) a"
    if "a \<notin> dom (attrs p)" for a
    using c that by (auto simp: map_add_dom_app_simps)
next
  fix i
  assume i: "i < length to_particles"
    and "key (to_particles ! i) \<notin> key ` set from_particles"
  then show "channel_copy from_particles to_particles ! i = to_particles ! i"
    by (simp add: channel_copy_def find_no_key)
qed

text \<open>The copy at two stars that the solver has evolved: the mass of the first is the
  solver's.\<close>

theorem channel_copy_overwrites_witness:
  "distinct (map key evolved2) \<and> (0::nat) < length stars2 \<and> evolved2 ! 0 \<in> set evolved2
   \<and> key (evolved2 ! 0) = key (stars2 ! 0) \<and> ''mass'' \<in> dom (attrs (evolved2 ! 0))
   \<and> attrs (channel_copy evolved2 stars2 ! 0) ''mass'' = attrs (evolved2 ! 0) ''mass''
   \<and> attrs (channel_copy evolved2 stars2 ! 0) ''mass'' = Some (Scalar 9)"
proof -
  have ids: "distinct (map key evolved2)" by (simp add: evolved2_def)
  have i: "(0::nat) < length stars2" by (simp add: stars2_def)
  have p: "evolved2 ! 0 \<in> set evolved2" by (simp add: evolved2_def)
  have k: "key (evolved2 ! 0) = key (stars2 ! 0)" by (simp add: evolved2_def stars2_def)
  have a: "''mass'' \<in> dom (attrs (evolved2 ! 0))" by (simp add: evolved2_def)
  from channel_copy_overwrites [OF ids, of stars2] i p k a
  have "attrs (channel_copy evolved2 stars2 ! 0) ''mass'' = attrs (evolved2 ! 0) ''mass''"
    by blast
  moreover have "attrs (evolved2 ! 0) ''mass'' = Some (Scalar 9)" by (simp add: evolved2_def)
  ultimately show ?thesis using ids i p k a by simp
qed

lemma channel_copy_keys: "map key (channel_copy src dst) = map key dst"
  by (induction dst) (auto simp: channel_copy_def split: option.splits)

lemma reachable_aligned:
  "reachable x \<Longrightarrow> map key (fst x) = map key (snd x) \<and> distinct (map key (snd x))"
proof (induction rule: reachable.induct)
  case (handed bodies)
  then show ?case by (simp add: add_particles_def)
next
  case (evolved sp c sp')
  then show ?case by simp
next
  case (copied sp c)
  then show ?case by (simp add: channel_copy_keys)
qed

text \<open>
  C5. A channel copy preserves the number of particles of the collection and the order of
  their identities; in every state that the notebooks' steps reach, the identities of
  the solver's particles and of the collection are the same, in the same order and
  without repetition, before and after a copy.
\<close>

theorem channel_copy_aligned:
  "map key (channel_copy from_particles to_particles) = map key to_particles
   \<and> length (channel_copy from_particles to_particles) = length to_particles
   \<and> (reachable (solver_particles, collection) \<longrightarrow>
        map key solver_particles = map key collection
        \<and> distinct (map key collection)
        \<and> map key (channel_copy solver_particles collection) = map key solver_particles)"
proof -
  have len: "length (channel_copy from_particles to_particles) = length to_particles"
    by (simp add: channel_copy_def)
  from reachable_aligned [of "(solver_particles, collection)"] channel_copy_keys len
  show ?thesis by simp
qed

text \<open>A reached state: two stars handed to the solver, evolved and copied back.\<close>

theorem channel_copy_aligned_witness:
  "reachable (evolved2, channel_copy evolved2 stars2)
   \<and> map key evolved2 = map key (channel_copy evolved2 stars2)
   \<and> distinct (map key (channel_copy evolved2 stars2))
   \<and> map key (channel_copy evolved2 (channel_copy evolved2 stars2)) = map key evolved2"
proof -
  have "distinct (map key stars2)" by (simp add: stars2_def)
  then have "reachable (add_particles [] stars2, stars2)" by (rule reachable.handed)
  moreover have "map key evolved2 = map key (add_particles [] stars2)"
    by (simp add: evolved2_def stars2_def add_particles_def)
  ultimately have "reachable (evolved2, stars2)" by (rule reachable.evolved)
  then have r: "reachable (evolved2, channel_copy evolved2 stars2)" by (rule reachable.copied)
  from channel_copy_aligned [of evolved2 "channel_copy evolved2 stars2" evolved2 "channel_copy evolved2 stars2"] r
  show ?thesis by simp
qed

section \<open>Unit arithmetic\<close>

lemma unit_vesc:
  "unit vesc = \<lparr>factor = sqrt (198892 * 10 ^ 20 / 6955), m_exp = 1, kg_exp = 0, s_exp = -1\<rparr>"
proof -
  have "((198892 * 10 ^ 25 / (6955 * 10 ^ 5)) :: real) powr (1 / 2) = sqrt (198892 * 10 ^ 25 / (6955 * 10 ^ 5))"
    by (rule powr_half_sqrt) simp
  moreover have "(198892 * 10 ^ 25 / (6955 * 10 ^ 5) :: real) = 198892 * 10 ^ 20 / 6955" by simp
  ultimately show ?thesis
    by (simp add: vesc_def q_sqrt_def q_div_def q_mul_def q_scale_def G_def mstar_def rstar_def
        new_quantity_def unit_pow_def unit_mul_def unit_div_def unit_m_def unit_kg_def unit_s_def
        unit_MSun_def unit_RSun_def of_rat_divide)
qed

lemma number_vesc: "number vesc = sqrt (1334 / 10 ^ 13)"
  by (simp add: vesc_def q_sqrt_def q_div_def q_mul_def q_scale_def G_def mstar_def rstar_def
      new_quantity_def)

lemma vesc_kms:
  "value_in vesc unit_kms = Inr (sqrt (1334 * 198892 * 10 ^ 7 / 6955) / 1000)"
proof -
  have c: "compatible (unit vesc) unit_kms" by (simp add: unit_vesc compatible_def unit_kms_def)
  have "sqrt (1334 / 10 ^ 13) * sqrt (198892 * 10 ^ 20 / 6955)
          = sqrt ((1334 / 10 ^ 13) * (198892 * 10 ^ 20 / 6955))" by (simp only: real_sqrt_mult)
  also have "(1334 / 10 ^ 13) * (198892 * 10 ^ 20 / 6955) = (1334 * 198892 * 10 ^ 7 / 6955 :: real)"
    by simp
  finally have "number vesc * factor (unit vesc) = sqrt (1334 * 198892 * 10 ^ 7 / 6955)"
    by (simp add: unit_vesc number_vesc)
  with c show ?thesis by (simp add: value_in_def unit_kms_def)
qed

lemma sqrt_between:
  fixes x :: real
  assumes "0 \<le> a" and "a\<^sup>2 < x" and "x < b\<^sup>2" and "0 \<le> b"
  shows "a < sqrt x \<and> sqrt x < b"
proof
  show "a < sqrt x" using assms(2) by (rule real_less_rsqrt)
  from assms(1,2) have "0 \<le> x" by (meson less_imp_le order_trans zero_le_power2)
  then show "sqrt x < b" using assms(3,4) by (simp add: real_less_lsqrt)
qed

text \<open>
  C3. Adding two quantities whose unit tags are dimensionally incompatible fails, and so
  does the conversion of a quantity to an incompatible unit; for compatible unit tags
  both succeed, and the sum carries the unit of its left operand. The escape speed
  \<open>(2*G*mstar/rstar).sqrt()\<close> of the units notebook carries the unit tag of a speed,
  metre per second, with the factor and the number that the notebook prints
  (\<open>1.15498917744e-05 53476144765.21653 * m * s**-1\<close>), and its value in km/s is the
  printed \<open>617.64368455\<close> to two decimal places.
\<close>

theorem incompatible_units_fail:
  "(\<not> compatible (unit q) (unit r) \<longrightarrow>
       q_add q r = Inl IncompatibleUnits \<and> value_in q (unit r) = Inl IncompatibleUnits)
   \<and> (compatible (unit q) (unit r) \<longrightarrow>
       (\<exists>s. q_add q r = Inr s \<and> unit s = unit q) \<and> (\<exists>v. value_in q (unit r) = Inr v))
   \<and> m_exp (unit vesc) = 1 \<and> kg_exp (unit vesc) = 0 \<and> s_exp (unit vesc) = -1
   \<and> 53476144765 < factor (unit vesc) \<and> factor (unit vesc) < 53476144766
   \<and> 115498 / 10 ^ 10 < number vesc \<and> number vesc < 115499 / 10 ^ 10
   \<and> (\<exists>v. value_in vesc unit_kms = Inr v \<and> 61764 / 100 < v \<and> v < 61765 / 100)"
proof -
  have f: "53476144765 < sqrt (198892 * 10 ^ 20 / 6955 :: real)
         \<and> sqrt (198892 * 10 ^ 20 / 6955 :: real) < 53476144766"
    by (rule sqrt_between) (simp_all add: power2_eq_square)
  have n: "115498 / 10 ^ 10 < sqrt (1334 / 10 ^ 13 :: real)
         \<and> sqrt (1334 / 10 ^ 13 :: real) < 115499 / 10 ^ 10"
    by (rule sqrt_between) (simp_all add: power2_eq_square)
  have v: "617640 < sqrt (1334 * 198892 * 10 ^ 7 / 6955 :: real)
         \<and> sqrt (1334 * 198892 * 10 ^ 7 / 6955 :: real) < 617650"
    by (rule sqrt_between) (simp_all add: power2_eq_square)
  have inc: "\<not> compatible (unit q) (unit r) \<longrightarrow>
       q_add q r = Inl IncompatibleUnits \<and> value_in q (unit r) = Inl IncompatibleUnits"
    by (simp add: q_add_def value_in_def)
  have com: "compatible (unit q) (unit r) \<longrightarrow>
       (\<exists>s. q_add q r = Inr s \<and> unit s = unit q) \<and> (\<exists>v. value_in q (unit r) = Inr v)"
    by (simp add: q_add_def value_in_def)
  have dims: "m_exp (unit vesc) = 1 \<and> kg_exp (unit vesc) = 0 \<and> s_exp (unit vesc) = -1"
    by (simp add: unit_vesc)
  have fac: "53476144765 < factor (unit vesc) \<and> factor (unit vesc) < 53476144766"
    using f by (simp only: unit_vesc unit_tag.simps)
  have num: "115498 / 10 ^ 10 < number vesc \<and> number vesc < 115499 / 10 ^ 10"
    using n by (simp only: number_vesc)
  have "61764 / 100 < sqrt (1334 * 198892 * 10 ^ 7 / 6955 :: real) / 1000
      \<and> sqrt (1334 * 198892 * 10 ^ 7 / 6955 :: real) / 1000 < 61765 / 100"
    using v by (simp add: field_simps)
  with vesc_kms have kms: "\<exists>v. value_in vesc unit_kms = Inr v \<and> 61764 / 100 < v \<and> v < 61765 / 100"
    by blast
  from inc com dims fac num kms show ?thesis by blast
qed

text \<open>The two cases at the notebook's quantities: a mass and a radius, the escape speed and
  a speed.\<close>

theorem incompatible_units_fail_witness:
  "\<not> compatible (unit mstar) (unit rstar)
   \<and> q_add mstar rstar = Inl IncompatibleUnits \<and> value_in mstar (unit rstar) = Inl IncompatibleUnits
   \<and> compatible (unit vesc) (unit (new_quantity 1 unit_kms))
   \<and> (\<exists>s. q_add vesc (new_quantity 1 unit_kms) = Inr s \<and> unit s = unit vesc)
   \<and> (\<exists>v. value_in vesc (unit (new_quantity 1 unit_kms)) = Inr v)"
proof -
  have a: "\<not> compatible (unit mstar) (unit rstar)"
    by (simp add: compatible_def mstar_def rstar_def new_quantity_def unit_MSun_def unit_RSun_def)
  have b: "compatible (unit vesc) (unit (new_quantity 1 unit_kms))"
    by (simp add: compatible_def unit_vesc new_quantity_def unit_kms_def)
  from incompatible_units_fail [of mstar rstar] a
  have c: "q_add mstar rstar = Inl IncompatibleUnits \<and> value_in mstar (unit rstar) = Inl IncompatibleUnits"
    by blast
  from incompatible_units_fail [of vesc "new_quantity 1 unit_kms"] b
  have d: "(\<exists>s. q_add vesc (new_quantity 1 unit_kms) = Inr s \<and> unit s = unit vesc)
      \<and> (\<exists>v. value_in vesc (unit (new_quantity 1 unit_kms)) = Inr v)" by blast
  from a b c d show ?thesis by blast
qed

end
